theory Spec2Isabelle
  imports Complex_Main
begin

text \<open>
  The glue logic of Evie: the two SMS services with their validation, normalisation and
  retry loop, the wake-word listener with its recovery, and the permission hook. Each
  method is a function from the state of its object and the answers of the libraries it
  calls to its result, the new state and the list of effects it had. Asynchronous methods
  run to their end before the next event is handled.
\<close>

section \<open>JavaScript strings\<close>

text \<open>
  A JavaScript string is a sequence of UTF-16 code units. Phone numbers and message
  bodies are modelled as lists of code units (natural numbers), so that every string the
  services can receive is covered; \<open>lit\<close> turns a literal into its code units.
  Error codes and fixed user messages are constants of the program and stay HOL strings.
\<close>

type_synonym jsstring = "nat list"

definition lit :: "string \<Rightarrow> jsstring" where
  "lit s = map of_char s"

text \<open>The regular expression class \<open>\d\<close> (without the unicode flag): the ASCII digits.\<close>

definition isDigit :: "nat \<Rightarrow> bool" where
  "isDigit c = (48 \<le> c \<and> c \<le> 57)"

text \<open>\<^verbatim>\<open>s.replace(/\D/g, '')\<close>: every code unit that is not a digit is removed.\<close>

definition stripNonDigits :: "jsstring \<Rightarrow> jsstring" where
  "stripNonDigits s = filter isDigit s"

text \<open>\<^verbatim>\<open>s.startsWith(p)\<close>\<close>

definition startsWith :: "jsstring \<Rightarrow> jsstring \<Rightarrow> bool" where
  "startsWith s p = (take (length p) s = p)"

text \<open>
  The code units \<^verbatim>\<open>String.prototype.trim\<close> removes: the WhiteSpace and LineTerminator
  productions of ECMAScript (tab, LF, VT, FF, CR, space, NBSP, the Unicode space
  separators, LS, PS and the byte order mark).
\<close>

definition isWhiteSpace :: "nat \<Rightarrow> bool" where
  "isWhiteSpace c =
     (c = 9 \<or> c = 10 \<or> c = 11 \<or> c = 12 \<or> c = 13 \<or> c = 32 \<or> c = 160 \<or> c = 5760 \<or>
      (8192 \<le> c \<and> c \<le> 8202) \<or> c = 8232 \<or> c = 8233 \<or> c = 8239 \<or> c = 8287 \<or>
      c = 12288 \<or> c = 65279)"

definition trim :: "jsstring \<Rightarrow> jsstring" where
  "trim s = rev (dropWhile isWhiteSpace (rev (dropWhile isWhiteSpace s)))"

section \<open>Phone numbers (SMSService.android.ts, SMSService.ios.ts)\<close>

text \<open>\<^verbatim>\<open>validatePhoneNumber\<close> of \<^verbatim>\<open>AndroidSMSService\<close>.\<close>

definition validatePhoneNumber :: "jsstring \<Rightarrow> bool" where
  "validatePhoneNumber phoneNumber =
     (let cleanNumber = stripNonDigits phoneNumber
      in length cleanNumber \<ge> 10 \<and> length cleanNumber \<le> 15)"

text \<open>
  \<^verbatim>\<open>formatPhoneNumber\<close> of \<^verbatim>\<open>AndroidSMSService\<close>. The last line tests
  \<^verbatim>\<open>cleaned.startsWith('+')\<close>, on the string the digits were filtered into, as the source
  does.
\<close>

definition formatPhoneNumber :: "jsstring \<Rightarrow> jsstring" where
  "formatPhoneNumber phoneNumber =
     (let cleaned = stripNonDigits phoneNumber
      in if length cleaned = 10 then lit ''+1'' @ cleaned
         else if length cleaned = 11 \<and> startsWith cleaned (lit ''1'') then lit ''+'' @ cleaned
         else if startsWith cleaned (lit ''+'') then phoneNumber
         else lit ''+'' @ cleaned)"

text \<open>\<^verbatim>\<open>validatePhoneNumber\<close> and \<^verbatim>\<open>formatPhoneNumber\<close> of \<^verbatim>\<open>IOSSMSService\<close>.\<close>

definition validatePhoneNumber_ios :: "jsstring \<Rightarrow> bool" where
  "validatePhoneNumber_ios phoneNumber =
     (let cleanNumber = stripNonDigits phoneNumber
      in length cleanNumber \<ge> 10 \<and> length cleanNumber \<le> 15)"

definition formatPhoneNumber_ios :: "jsstring \<Rightarrow> jsstring" where
  "formatPhoneNumber_ios phoneNumber =
     (let cleaned = stripNonDigits phoneNumber
      in if length cleaned = 10 then lit ''+1'' @ cleaned
         else if length cleaned = 11 \<and> startsWith cleaned (lit ''1'') then lit ''+'' @ cleaned
         else if startsWith cleaned (lit ''+'') then phoneNumber
         else lit ''+'' @ cleaned)"

section \<open>The SMS data model (SMSService.android.ts)\<close>

text \<open>
  The interfaces of the source, field by field. Timestamps (\<^verbatim>\<open>new Date()\<close>) are left out:
  no decision of the services reads them. \<^verbatim>\<open>Platform.OS\<close> is a value of the runtime.
  The counters and limits are JavaScript numbers; they hold integers in the source and are
  integers here.
\<close>

datatype OS = Android | IOS | OtherOS

datatype SMSDeliveryStatus = SENT | DELIVERED | FAILED | PENDING | CANCELLED | UNKNOWN

datatype Priority = Normal | High | Urgent

record SMSMessage =
  id_msg :: jsstring
  to :: jsstring
  body :: jsstring
  priority :: "Priority option"

record SMSError =
  code :: string
  message :: string
  userMessage :: string
  isRecoverable :: bool
  suggestedAction :: string
  technicalDetails :: "string option"

record SMSResult =
  success :: bool
  messageId :: "jsstring option"
  deliveryStatus :: SMSDeliveryStatus
  error :: "SMSError option"

record SMSServiceConfig =
  enableDebugging :: bool
  maxRetries :: int
  retryDelay :: int
  enableAccessibilityAnnouncements :: bool
  fallbackToClipboard :: bool

record SMSPermissionStatus =
  hasPermission :: bool
  canRequestPermission :: bool
  isAvailable :: bool

record AndroidSMSService =
  config :: SMSServiceConfig
  permissionStatus :: SMSPermissionStatus
  retryCount :: int

text \<open>The configuration and the fields the constructor sets when it is given no overrides.\<close>

definition defaultConfig :: SMSServiceConfig where
  "defaultConfig = \<lparr>enableDebugging = False, maxRetries = 3, retryDelay = 2000,
     enableAccessibilityAnnouncements = True, fallbackToClipboard = True\<rparr>"

definition newAndroidSMSService :: "OS \<Rightarrow> AndroidSMSService" where
  "newAndroidSMSService os = \<lparr>config = defaultConfig,
     permissionStatus = \<lparr>hasPermission = False, canRequestPermission = True,
       isAvailable = (os = Android)\<rparr>,
     retryCount = 0\<rparr>"

subsection \<open>The world outside the service\<close>

text \<open>
  What the service does to the outside is recorded, in order, as a list of effects: the
  screen-reader announcements, the calls of \<^verbatim>\<open>PermissionsAndroid\<close>, the call of
  \<^verbatim>\<open>SendSMS.send\<close> (body, recipients), the HTTP request of the relay service and the
  waits on \<^verbatim>\<open>setTimeout\<close>. Console logging is not recorded, and \<^verbatim>\<open>log\<close>, \<^verbatim>\<open>logError\<close> and
  the accessibility manager are taken not to throw. Every awaited promise of a library
  settles: it resolves or rejects.
\<close>

datatype effect =
    Announce jsstring
  | PermissionsCheck
  | PermissionsRequest
  | NativeSend jsstring "jsstring list"
  | HttpPost jsstring jsstring jsstring Priority
  | Delay int

datatype RequestResult = GRANTED | DENIED | NEVER_ASK_AGAIN

text \<open>
  What the libraries answer during one call of \<^verbatim>\<open>sendSMS\<close>: the platform, the result of
  \<^verbatim>\<open>PermissionsAndroid.check\<close> and of \<^verbatim>\<open>PermissionsAndroid.request\<close> (\<open>None\<close> when the
  promise rejects), the arguments \<^verbatim>\<open>(completed, cancelled, error)\<close> that \<^verbatim>\<open>SendSMS.send\<close>
  passes to its callback (\<open>Inl\<close> with the exception's message when the call throws), and
  the identifier \<^verbatim>\<open>generateMessageId\<close> draws from the clock and the random generator.
\<close>

record runtime =
  platformOS :: OS

record android_env = runtime +
  checkAnswer :: "bool option"
  requestAnswer :: "RequestResult option"
  sendAnswer :: "string + (bool \<times> bool \<times> bool)"
  generatedId :: jsstring

subsection \<open>AndroidSMSService\<close>

definition announceToScreenReader :: "AndroidSMSService \<Rightarrow> jsstring \<Rightarrow> effect list" where
  "announceToScreenReader s msg =
     (if enableAccessibilityAnnouncements (config s) then [Announce msg] else [])"

definition createError ::
  "string \<Rightarrow> string \<Rightarrow> string \<Rightarrow> bool \<Rightarrow> string \<Rightarrow> string option \<Rightarrow> SMSError" where
  "createError c m um r sa td =
     \<lparr>code = c, message = m, userMessage = um, isRecoverable = r, suggestedAction = sa,
      technicalDetails = td\<rparr>"

definition failure :: "SMSDeliveryStatus \<Rightarrow> SMSError \<Rightarrow> SMSResult" where
  "failure ds e = \<lparr>success = False, messageId = None, deliveryStatus = ds, error = Some e\<rparr>"

definition checkSMSPermission ::
  "android_env \<Rightarrow> AndroidSMSService \<Rightarrow> SMSPermissionStatus \<times> AndroidSMSService \<times> effect list" where
  "checkSMSPermission env s =
     (if platformOS env \<noteq> Android then
        (let ps = \<lparr>hasPermission = False, canRequestPermission = False, isAvailable = False\<rparr>
         in (ps, s\<lparr>permissionStatus := ps\<rparr>, []))
      else case checkAnswer env of
        Some hp \<Rightarrow>
          (let ps = \<lparr>hasPermission = hp, canRequestPermission = (\<not> hp), isAvailable = True\<rparr>
           in (ps, s\<lparr>permissionStatus := ps\<rparr>, [PermissionsCheck]))
      | None \<Rightarrow>
          (let ps = \<lparr>hasPermission = False, canRequestPermission = False, isAvailable = False\<rparr>
           in (ps, s\<lparr>permissionStatus := ps\<rparr>, [PermissionsCheck])))"

definition requestSMSPermission ::
  "android_env \<Rightarrow> AndroidSMSService \<Rightarrow> bool \<times> AndroidSMSService \<times> effect list" where
  "requestSMSPermission env s =
     (if platformOS env \<noteq> Android then (False, s, [])
      else case requestAnswer env of
        Some result \<Rightarrow>
          (let granted = (result = GRANTED);
               s' = s\<lparr>permissionStatus := \<lparr>hasPermission = granted,
                      canRequestPermission = (result \<noteq> NEVER_ASK_AGAIN), isAvailable = True\<rparr>\<rparr>
           in (granted, s', PermissionsRequest #
                (if granted
                 then announceToScreenReader s'
                   (lit ''SMS permission granted. Evie can now send messages automatically.'')
                 else announceToScreenReader s'
                   (lit ''SMS permission denied. You can copy messages and send them manually.''))))
      | None \<Rightarrow>
          (False, s, PermissionsRequest # announceToScreenReader s
             (lit ''Unable to request SMS permission. You can copy messages and send them manually.'')))"

text \<open>
  The part of \<^verbatim>\<open>sendSMS\<close> after the permission check: the two validations, the
  formatting and the call of \<^verbatim>\<open>SendSMS.send\<close> with its callback, and the \<^verbatim>\<open>catch\<close> block
  for a call that throws.
\<close>

definition validateAndSend ::
  "android_env \<Rightarrow> AndroidSMSService \<Rightarrow> SMSMessage \<Rightarrow> SMSResult \<times> AndroidSMSService \<times> effect list" where
  "validateAndSend env s msg =
     (if \<not> validatePhoneNumber (to msg) then
        (failure FAILED (createError ''INVALID_PHONE_NUMBER'' ''Invalid phone number format''
           ''The phone number format is not valid. Please check the number and try again.''
           True ''Enter a valid phone number (10-15 digits)'' None),
         s, announceToScreenReader s
              (lit ''Invalid phone number. Please check the number and try again.''))
      else if body msg = [] \<or> length (trim (body msg)) = 0 then
        (failure FAILED (createError ''EMPTY_MESSAGE'' ''Message body is empty''
           ''Cannot send an empty message. Please add some text.''
           True ''Add text to your message'' None),
         s, announceToScreenReader s (lit ''Cannot send empty message. Please add some text.''))
      else
        (let formattedNumber = formatPhoneNumber (to msg);
             call = NativeSend (body msg) [formattedNumber]
         in case sendAnswer env of
           Inl exn \<Rightarrow>
             (failure FAILED (createError ''SEND_ERROR'' ''SMS sending error''
                ''An unexpected error occurred while sending the message.''
                True ''Try again or use the copy message feature'' (Some exn)),
              s, call # announceToScreenReader s
                   (lit ''An error occurred while sending the message. Please try again.''))
         | Inr (completed, cancelled, err) \<Rightarrow>
             (if completed \<and> \<not> err then
                (\<lparr>success = True, messageId = Some (generatedId env), deliveryStatus = SENT,
                  error = None\<rparr>,
                 s\<lparr>retryCount := 0\<rparr>,
                 call # announceToScreenReader s
                   (lit ''Message sent successfully to '' @ formattedNumber))
              else if cancelled then
                (failure CANCELLED (createError ''SEND_CANCELLED''
                   ''SMS sending cancelled by user'' ''Message sending was cancelled.''
                   True ''Try sending the message again'' None),
                 s, call # announceToScreenReader s (lit ''Message sending was cancelled.''))
              else
                (failure FAILED (createError ''SEND_FAILED'' ''SMS sending failed''
                   ''Unable to send the message. This could be due to network issues or SMS service problems.''
                   True ''Check your network connection and try again'' None),
                 s, call # announceToScreenReader s
                      (lit ''Message sending failed. Please try again.'')))))"

definition sendSMS ::
  "android_env \<Rightarrow> AndroidSMSService \<Rightarrow> SMSMessage \<Rightarrow> SMSResult \<times> AndroidSMSService \<times> effect list" where
  "sendSMS env s msg =
     (if platformOS env \<noteq> Android then
        (failure FAILED (createError ''PLATFORM_NOT_SUPPORTED''
           ''SMS not supported on this platform''
           ''SMS sending is only available on Android devices.''
           False ''Use the copy message feature instead'' None),
         s, announceToScreenReader s
              (lit ''SMS not available on this device. Message text copied for manual sending.''))
      else
        (let (ps, s1, t1) = checkSMSPermission env s
         in if \<not> hasPermission ps then
              (if canRequestPermission ps then
                 (let (granted, s2, t2) = requestSMSPermission env s1
                  in if \<not> granted then
                       (failure FAILED (createError ''PERMISSION_DENIED'' ''SMS permission denied''
                          ''SMS permission is required to send messages automatically.''
                          True ''Grant SMS permission in settings or use copy message feature'' None),
                        s2, t1 @ t2)
                     else
                       (let (r, s3, t3) = validateAndSend env s2 msg in (r, s3, t1 @ t2 @ t3)))
               else
                 (failure FAILED (createError ''PERMISSION_PERMANENTLY_DENIED''
                    ''SMS permission permanently denied''
                    ''SMS permission has been permanently denied.''
                    False ''Enable SMS permission in device settings or use copy message feature''
                    None),
                  s1, t1))
            else
              (let (r, s3, t3) = validateAndSend env s1 msg in (r, s3, t1 @ t3))))"

text \<open>\<^verbatim>\<open>result.error?.isRecoverable\<close>\<close>

definition errorIsRecoverable :: "SMSResult \<Rightarrow> bool" where
  "errorIsRecoverable r = (case error r of None \<Rightarrow> False | Some e \<Rightarrow> isRecoverable e)"

text \<open>
  \<^verbatim>\<open>sendSMSWithRetry\<close>. The answers of the libraries during the \<open>k\<close>-th call of \<^verbatim>\<open>sendSMS\<close>
  are \<open>envs k\<close>. The recursion ends because a failed \<^verbatim>\<open>sendSMS\<close> leaves \<^verbatim>\<open>retryCount\<close> and the
  configuration as they were.
\<close>

function sendSMSWithRetry ::
  "(nat \<Rightarrow> android_env) \<Rightarrow> nat \<Rightarrow> AndroidSMSService \<Rightarrow> SMSMessage
     \<Rightarrow> SMSResult \<times> AndroidSMSService \<times> effect list" where
  "sendSMSWithRetry envs k s msg =
     (let (result, s1, t1) = sendSMS (envs k) s msg
      in if \<not> success result \<and> errorIsRecoverable result
            \<and> retryCount s1 < maxRetries (config s1) then
           (let s2 = s1\<lparr>retryCount := retryCount s1 + 1\<rparr>;
                (r, s3, t3) = sendSMSWithRetry envs (Suc k) s2 msg
            in (r, s3, t1 @ [Delay (retryDelay (config s1))] @ t3))
         else (result, s1\<lparr>retryCount := 0\<rparr>, t1))"
  by pat_completeness auto

termination sendSMSWithRetry
proof (relation "measure (\<lambda>(envs, k, s, msg). nat (maxRetries (config s) - retryCount s))")
  show "wf (measure (\<lambda>(envs, k, s, msg). nat (maxRetries (config s) - retryCount s)))"
    by simp
next
  fix envs :: "nat \<Rightarrow> android_env" and k s msg x result y s1 t1 s2
  assume a: "x = sendSMS (envs k) s msg" "(result, y) = x" "(s1, t1) = y"
    "\<not> success result \<and> errorIsRecoverable result \<and> retryCount s1 < maxRetries (config s1)"
    "s2 = s1\<lparr>retryCount := retryCount s1 + 1\<rparr>"
  have chk: "retryCount c1 = retryCount c \<and> config c1 = config c"
    if "checkSMSPermission env c = (ps, c1, u)" for env c ps c1 u
    using that by (auto simp: checkSMSPermission_def Let_def split: if_splits option.splits)
  have req: "retryCount c1 = retryCount c \<and> config c1 = config c"
    if "requestSMSPermission env c = (g, c1, u)" for env c g c1 u
    using that by (auto simp: requestSMSPermission_def Let_def split: if_splits option.splits)
  have vas: "config c1 = config c \<and> (\<not> success r \<longrightarrow> retryCount c1 = retryCount c)"
    if "validateAndSend env c m = (r, c1, u)" for env c m r c1 u
    using that
    by (auto simp: validateAndSend_def Let_def failure_def
        split: if_splits sum.splits prod.splits)
  have snd: "config c1 = config c \<and> (\<not> success r \<longrightarrow> retryCount c1 = retryCount c)"
    if "sendSMS env c m = (r, c1, u)" for env c m r c1 u
    using that
    apply (simp add: sendSMS_def Let_def failure_def split: if_splits prod.splits)
    apply (auto dest!: chk req vas)
    done
  from a have "sendSMS (envs k) s msg = (result, s1, t1)" by simp
  from snd [OF this] a
  show "((envs, Suc k, s2, msg), (envs, k, s, msg))
        \<in> measure (\<lambda>(envs, k, s, msg). nat (maxRetries (config s) - retryCount s))"
    by simp
qed

declare sendSMSWithRetry.simps [simp del]

section \<open>The relay service (SMSService.ios.ts)\<close>

text \<open>
  \<^verbatim>\<open>IOSSMSService\<close> has its own configuration, retry counter and usage statistics. The
  Twilio settings and the date of the last reset are left out: \<^verbatim>\<open>sendSMS\<close> and
  \<^verbatim>\<open>sendSMSWithRetry\<close> do not read them.
\<close>

record FirebaseConfig =
  projectId :: jsstring
  region :: jsstring
  functionName :: jsstring

record IOSSMSConfig =
  enableDebugging_ios :: bool
  maxRetries_ios :: int
  retryDelay_ios :: int
  enableAccessibilityAnnouncements_ios :: bool
  firebase :: FirebaseConfig
  usageTracking :: bool

record UsageStats =
  messagesThisMonth :: int
  freeLimit :: int
  isApproachingLimit :: bool

record IOSSMSService =
  config_ios :: IOSSMSConfig
  retryCount_ios :: int
  usageStats :: UsageStats

text \<open>
  The fields the constructor sets when it is given no overrides; the project and the
  region come from the process environment (\<^verbatim>\<open>us-central1\<close> when the region is not set).
\<close>

definition newIOSSMSService :: "jsstring \<Rightarrow> jsstring \<Rightarrow> IOSSMSService" where
  "newIOSSMSService pid reg =
     \<lparr>config_ios = \<lparr>enableDebugging_ios = False, maxRetries_ios = 3, retryDelay_ios = 2000,
        enableAccessibilityAnnouncements_ios = True,
        firebase = \<lparr>projectId = pid, region = (if reg = [] then lit ''us-central1'' else reg),
          functionName = lit ''sendSMS''\<rparr>,
        usageTracking = True\<rparr>,
      retryCount_ios = 0,
      usageStats = \<lparr>messagesThisMonth = 0, freeLimit = 1000, isApproachingLimit = False\<rparr>\<rparr>"

text \<open>
  The answer of \<^verbatim>\<open>axios.post\<close>: a response with its status and its JSON body (\<open>None\<close>
  when the body is \<^verbatim>\<open>null\<close>), or a rejection, which is an Axios error (with its \<^verbatim>\<open>code\<close>, the
  status of its \<^verbatim>\<open>response\<close> when there is one, and its message) or any other exception.
\<close>

record response_data =
  data_success :: bool
  data_messageId :: "jsstring option"
  data_error :: "string option"

datatype axios_answer =
    Response int "response_data option"
  | AxiosError "string option" "int option" string
  | OtherError string

record ios_env = runtime +
  postAnswer :: axios_answer
  generatedId_ios :: jsstring

definition announceToScreenReader_ios :: "IOSSMSService \<Rightarrow> jsstring \<Rightarrow> effect list" where
  "announceToScreenReader_ios s msg =
     (if enableAccessibilityAnnouncements_ios (config_ios s) then [Announce msg] else [])"

text \<open>
  \<^verbatim>\<open>createError\<close> of the relay service takes five arguments: the suggested action is
  computed from the recoverability flag, and the fifth argument is the technical detail.
\<close>

definition createError_ios ::
  "string \<Rightarrow> string \<Rightarrow> string \<Rightarrow> bool \<Rightarrow> string option \<Rightarrow> SMSError" where
  "createError_ios c m um r td =
     \<lparr>code = c, message = m, userMessage = um, isRecoverable = r,
      suggestedAction = (if r then ''Try again'' else ''Check your internet connection''),
      technicalDetails = td\<rparr>"

definition getFirebaseCloudFunctionUrl :: "IOSSMSService \<Rightarrow> jsstring" where
  "getFirebaseCloudFunctionUrl s =
     (let f = firebase (config_ios s)
      in lit ''https://'' @ region f @ lit ''-'' @ projectId f @ lit ''.cloudfunctions.net/''
         @ functionName f)"

definition isAvailable_ios :: "ios_env \<Rightarrow> IOSSMSService \<Rightarrow> bool" where
  "isAvailable_ios env s =
     (if platformOS env \<noteq> IOS then False
      else if messagesThisMonth (usageStats s) \<ge> freeLimit (usageStats s) then False
      else if projectId (firebase (config_ios s)) = [] then False
      else True)"

definition updateUsageStats :: "IOSSMSService \<Rightarrow> IOSSMSService \<times> effect list" where
  "updateUsageStats s =
     (let u = usageStats s;
          s' = s\<lparr>usageStats := u\<lparr>messagesThisMonth := messagesThisMonth u + 1\<rparr>\<rparr>
      in (s', if messagesThisMonth (usageStats s') \<ge> freeLimit (usageStats s')
              then announceToScreenReader_ios s'
                (lit ''Warning: Approaching free tier limit for SMS messages this month.'')
              else []))"

text \<open>The \<^verbatim>\<open>catch\<close> block of \<^verbatim>\<open>sendSMS\<close>: the error code chosen for an exception.\<close>

definition classifyError :: "axios_answer \<Rightarrow> string \<times> string" where
  "classifyError a =
     (case a of
        AxiosError c st m \<Rightarrow>
          (if c = Some ''ECONNABORTED'' then
             (''TIMEOUT_ERROR'', ''The request timed out. Please check your internet connection.'')
           else if st = Some 429 then
             (''RATE_LIMITED'', ''Too many requests. Please wait a moment and try again.'')
           else if (case st of Some n \<Rightarrow> n \<noteq> 0 \<and> n \<ge> 500 | None \<Rightarrow> False) then
             (''SERVER_ERROR'',
              ''The SMS service is temporarily unavailable. Please try again later.'')
           else if st = None then
             (''NETWORK_ERROR'',
              ''No internet connection. Please check your network and try again.'')
           else (''SEND_ERROR'', ''An unexpected error occurred while sending the message.''))
      | _ \<Rightarrow> (''SEND_ERROR'', ''An unexpected error occurred while sending the message.''))"

definition exceptionMessage :: "axios_answer \<Rightarrow> string" where
  "exceptionMessage a =
     (case a of AxiosError c st m \<Rightarrow> m | OtherError m \<Rightarrow> m
      | Response st d \<Rightarrow> ''Cannot read properties of null'')"

definition caught_ios ::
  "IOSSMSService \<Rightarrow> axios_answer \<Rightarrow> effect list \<Rightarrow> SMSResult \<times> IOSSMSService \<times> effect list" where
  "caught_ios s a t =
     (let (errorCode, um) = classifyError a
      in (failure FAILED (createError_ios errorCode ''iOS SMS sending error'' um True
            (Some (exceptionMessage a))),
          s, t @ announceToScreenReader_ios s
               (lit ''An error occurred while sending the message. Please try again.'')))"

definition sendSMS_ios ::
  "ios_env \<Rightarrow> IOSSMSService \<Rightarrow> SMSMessage \<Rightarrow> SMSResult \<times> IOSSMSService \<times> effect list" where
  "sendSMS_ios env s msg =
     (if platformOS env \<noteq> IOS then
        (failure FAILED (createError_ios ''PLATFORM_NOT_SUPPORTED''
           ''iOS SMS service not supported on this platform''
           ''This SMS method is only available on iOS devices.''
           False (Some ''Use Android native SMS instead'')), s, [])
      else if \<not> isAvailable_ios env s then
        (failure FAILED (createError_ios ''SERVICE_UNAVAILABLE'' ''iOS SMS service not available''
           ''SMS service is currently unavailable. You may have reached the free tier limit.''
           False (Some ''Try again next month or use copy message feature'')),
         s, announceToScreenReader_ios s
              (lit ''SMS service unavailable. Message text copied for manual sending.''))
      else if \<not> validatePhoneNumber_ios (to msg) then
        (failure FAILED (createError_ios ''INVALID_PHONE_NUMBER'' ''Invalid phone number format''
           ''The phone number format is not valid. Please check the number and try again.''
           True (Some ''Enter a valid phone number (10-15 digits)'')),
         s, announceToScreenReader_ios s
              (lit ''Invalid phone number. Please check the number and try again.''))
      else if body msg = [] \<or> length (trim (body msg)) = 0 then
        (failure FAILED (createError_ios ''EMPTY_MESSAGE'' ''Message body is empty''
           ''Cannot send an empty message. Please add some text.''
           True (Some ''Add text to your message'')),
         s, announceToScreenReader_ios s
              (lit ''Cannot send empty message. Please add some text.''))
      else
        (let formattedNumber = formatPhoneNumber_ios (to msg);
             call = HttpPost (getFirebaseCloudFunctionUrl s) formattedNumber (body msg)
                      (case priority msg of Some p \<Rightarrow> p | None \<Rightarrow> Normal)
         in case postAnswer env of
           Response st None \<Rightarrow>
             (if st = 200 then caught_ios s (postAnswer env) [call]
              else
                (failure FAILED (createError_ios ''CLOUD_FUNCTION_ERROR''
                   ''Cloud function returned error''
                   ''Unable to send the message through the cloud service.''
                   True (Some ''Unknown cloud function error'')),
                 s, call # announceToScreenReader_ios s
                      (lit ''Message sending failed. Please try again.'')))
         | Response st (Some d) \<Rightarrow>
             (if st = 200 \<and> data_success d then
                (let (s1, t1) = updateUsageStats s
                 in (\<lparr>success = True,
                      messageId = Some (case data_messageId d of
                                          Some i \<Rightarrow> if i = [] then generatedId_ios env else i
                                        | None \<Rightarrow> generatedId_ios env),
                      deliveryStatus = SENT, error = None\<rparr>,
                     s1, call # t1 @ announceToScreenReader_ios s1
                           (lit ''Message sent successfully to '' @ formattedNumber)))
              else
                (failure FAILED (createError_ios ''CLOUD_FUNCTION_ERROR''
                   ''Cloud function returned error''
                   ''Unable to send the message through the cloud service.''
                   True (Some (case data_error d of
                                 Some e \<Rightarrow> if e = [] then ''Unknown cloud function error'' else e
                               | None \<Rightarrow> ''Unknown cloud function error''))),
                 s, call # announceToScreenReader_ios s
                      (lit ''Message sending failed. Please try again.'')))
         | _ \<Rightarrow> caught_ios s (postAnswer env) [call]))"

definition errorIsRecoverable_ios :: "SMSResult \<Rightarrow> bool" where
  "errorIsRecoverable_ios r = (case error r of None \<Rightarrow> False | Some e \<Rightarrow> isRecoverable e)"

function sendSMSWithRetry_ios ::
  "(nat \<Rightarrow> ios_env) \<Rightarrow> nat \<Rightarrow> IOSSMSService \<Rightarrow> SMSMessage
     \<Rightarrow> SMSResult \<times> IOSSMSService \<times> effect list" where
  "sendSMSWithRetry_ios envs k s msg =
     (let (result, s1, t1) = sendSMS_ios (envs k) s msg
      in if \<not> success result \<and> errorIsRecoverable_ios result
            \<and> retryCount_ios s1 < maxRetries_ios (config_ios s1) then
           (let s2 = s1\<lparr>retryCount_ios := retryCount_ios s1 + 1\<rparr>;
                (r, s3, t3) = sendSMSWithRetry_ios envs (Suc k) s2 msg
            in (r, s3, t1 @ [Delay (retryDelay_ios (config_ios s1))] @ t3))
         else (result, s1\<lparr>retryCount_ios := 0\<rparr>, t1))"
  by pat_completeness auto

termination sendSMSWithRetry_ios
proof (relation
    "measure (\<lambda>(envs, k, s, msg). nat (maxRetries_ios (config_ios s) - retryCount_ios s))")
  show "wf (measure
      (\<lambda>(envs, k, s, msg). nat (maxRetries_ios (config_ios s) - retryCount_ios s)))"
    by simp
next
  fix envs :: "nat \<Rightarrow> ios_env" and k s msg x result y s1 t1 s2
  assume a: "x = sendSMS_ios (envs k) s msg" "(result, y) = x" "(s1, t1) = y"
    "\<not> success result \<and> errorIsRecoverable_ios result
       \<and> retryCount_ios s1 < maxRetries_ios (config_ios s1)"
    "s2 = s1\<lparr>retryCount_ios := retryCount_ios s1 + 1\<rparr>"
  have snd: "config_ios c1 = config_ios c \<and> retryCount_ios c1 = retryCount_ios c"
    if "sendSMS_ios env c m = (r, c1, u)" for env c m r c1 u
    using that
    by (auto simp: sendSMS_ios_def caught_ios_def updateUsageStats_def Let_def
        split: if_splits prod.splits axios_answer.splits option.splits)
  from a have "sendSMS_ios (envs k) s msg = (result, s1, t1)" by simp
  from snd [OF this] a
  show "((envs, Suc k, s2, msg), (envs, k, s, msg))
        \<in> measure (\<lambda>(envs, k, s, msg). nat (maxRetries_ios (config_ios s) - retryCount_ios s))"
    by simp
qed

declare sendSMSWithRetry_ios.simps [simp del]

section \<open>Reading a run of the retry loop\<close>

text \<open>
  A retry is a wait on the timer followed by another call of \<^verbatim>\<open>sendSMS\<close>: the retries of a
  run are the \<open>Delay\<close> effects of its trace. A platform send is a \<open>NativeSend\<close> (the
  direct-send service) or an \<open>HttpPost\<close> (the relay service).
\<close>

fun isDelay :: "effect \<Rightarrow> bool" where
  "isDelay (Delay d) = True"
| "isDelay e = False"

fun isPlatformSend :: "effect \<Rightarrow> bool" where
  "isPlatformSend (NativeSend b rs) = True"
| "isPlatformSend (HttpPost u n b p) = True"
| "isPlatformSend e = False"

definition retries :: "effect list \<Rightarrow> nat" where
  "retries t = length (filter isDelay t)"

text \<open>
  The state in which the \<open>j\<close>-th further call of \<^verbatim>\<open>sendSMS\<close> starts, when the loop was
  entered at call \<open>k\<close> in state \<open>s\<close> and every call before it was retried; and the result of
  that call.
\<close>

fun stateBeforeAttempt ::
  "(nat \<Rightarrow> android_env) \<Rightarrow> SMSMessage \<Rightarrow> nat \<Rightarrow> AndroidSMSService \<Rightarrow> nat \<Rightarrow> AndroidSMSService" where
  "stateBeforeAttempt envs msg k s 0 = s"
| "stateBeforeAttempt envs msg k s (Suc j) =
     (let (r, s1, t1) = sendSMS (envs k) s msg
      in stateBeforeAttempt envs msg (Suc k) (s1\<lparr>retryCount := retryCount s1 + 1\<rparr>) j)"

definition resultOfAttempt ::
  "(nat \<Rightarrow> android_env) \<Rightarrow> SMSMessage \<Rightarrow> nat \<Rightarrow> AndroidSMSService \<Rightarrow> nat \<Rightarrow> SMSResult" where
  "resultOfAttempt envs msg k s j =
     fst (sendSMS (envs (k + j)) (stateBeforeAttempt envs msg k s j) msg)"

fun stateBeforeAttempt_ios ::
  "(nat \<Rightarrow> ios_env) \<Rightarrow> SMSMessage \<Rightarrow> nat \<Rightarrow> IOSSMSService \<Rightarrow> nat \<Rightarrow> IOSSMSService" where
  "stateBeforeAttempt_ios envs msg k s 0 = s"
| "stateBeforeAttempt_ios envs msg k s (Suc j) =
     (let (r, s1, t1) = sendSMS_ios (envs k) s msg
      in stateBeforeAttempt_ios envs msg (Suc k)
           (s1\<lparr>retryCount_ios := retryCount_ios s1 + 1\<rparr>) j)"

definition resultOfAttempt_ios ::
  "(nat \<Rightarrow> ios_env) \<Rightarrow> SMSMessage \<Rightarrow> nat \<Rightarrow> IOSSMSService \<Rightarrow> nat \<Rightarrow> SMSResult" where
  "resultOfAttempt_ios envs msg k s j =
     fst (sendSMS_ios (envs (k + j)) (stateBeforeAttempt_ios envs msg k s j) msg)"

text \<open>
  The retry policy in the words of the specification, for a run that returned \<open>r\<close> with
  the trace \<open>t\<close>, given the result of each attempt: at most \<open>maxR\<close> retries, each after the
  fixed delay; every attempt that was retried had failed with a recoverable error; the
  result returned is that of the last attempt, unchanged; and a recoverable failure is
  returned only when the retries are used up.
\<close>

definition retriedUpTo ::
  "int \<Rightarrow> int \<Rightarrow> (nat \<Rightarrow> SMSResult) \<Rightarrow> SMSResult \<Rightarrow> effect list \<Rightarrow> bool" where
  "retriedUpTo maxR delay results r t =
     (int (retries t) \<le> maxR
      \<and> (\<forall>e \<in> set t. isDelay e \<longrightarrow> e = Delay delay)
      \<and> (\<forall>j < retries t. \<not> success (results j) \<and> errorIsRecoverable (results j))
      \<and> r = results (retries t)
      \<and> (\<not> success r \<and> errorIsRecoverable r \<longrightarrow> int (retries t) = maxR))"

text \<open>The direct-send service holds the permission: it had it, or asked and was granted it.\<close>

definition permissionObtained :: "android_env \<Rightarrow> bool" where
  "permissionObtained env =
     (platformOS env = Android
      \<and> (checkAnswer env = Some True
         \<or> (checkAnswer env = Some False \<and> requestAnswer env = Some GRANTED)))"

section \<open>The wake-word listener (VoiceService)\<close>

text \<open>
  \<^verbatim>\<open>VoiceService\<close> extends the event emitter of the \<^verbatim>\<open>events\<close> package. The fields are those
  of the class; \<open>listeners\<close> is the emitter's own state, the names of the events that have a
  listener (\<^verbatim>\<open>cleanup\<close> removes them all).
\<close>

datatype VoiceServiceState = IDLE | INITIALIZING | LISTENING | PROCESSING | ERROR
  | PERMISSION_DENIED

datatype PorcupineManager = Handle

record VoiceServiceConfig =
  accessKey :: jsstring
  keyword :: jsstring
  sensitivity :: real
  enableDebugging_v :: bool

record VoiceError =
  code_v :: string
  message_v :: string
  userMessage_v :: string
  isRecoverable_v :: bool
  platform :: OS
  technicalDetails_v :: "string option"

record VoiceService =
  porcupineManager :: "PorcupineManager option"
  currentState :: VoiceServiceState
  config_v :: VoiceServiceConfig
  isInitialized :: bool
  permissionGranted :: bool
  retryCount_v :: int
  maxRetries_v :: int
  listeners :: "string list"

text \<open>The constructor; no listener is registered yet.\<close>

definition newVoiceService :: "VoiceServiceConfig \<Rightarrow> VoiceService" where
  "newVoiceService cfg = \<lparr>porcupineManager = None, currentState = IDLE, config_v = cfg,
     isInitialized = False, permissionGranted = False, retryCount_v = 0, maxRetries_v = 3,
     listeners = []\<rparr>"

text \<open>\<^verbatim>\<open>on(event, listener)\<close> of the emitter, as the hook \<^verbatim>\<open>useVoiceDetection\<close> calls it.\<close>

definition on :: "string \<Rightarrow> VoiceService \<Rightarrow> VoiceService" where
  "on ev s = s\<lparr>listeners := ev # listeners s\<rparr>"

text \<open>
  The payload of an event, the timers the service sets, and what it does to the outside:
  the events delivered to listeners, the calls of the Porcupine manager and of
  \<^verbatim>\<open>PermissionsAndroid\<close>, the awaited two-second wait, and the timers set with \<^verbatim>\<open>setTimeout\<close>
  (their callbacks run later, as \<open>resetToListening\<close> and \<open>attemptRecovery\<close> below).
\<close>

datatype event_data =
    NoData
  | ErrorData VoiceError
  | KeywordData jsstring int real

datatype timer = ResetToListening | RetryRecovery

datatype voice_effect =
    Emit string event_data
  | RequestMicrophone
  | CreateManager jsstring real
  | StartManager
  | StopManager
  | DeleteManager
  | Wait int
  | SetTimeout int timer

text \<open>
  A call of a method returns or throws (an \<^verbatim>\<open>async\<close> method: its promise resolves or
  rejects); the state and the effects up to the throw remain.
\<close>

datatype 'a outcome = Returned 'a | Threw string

text \<open>
  What the libraries answer during one call: \<^verbatim>\<open>PermissionsAndroid.request\<close> (\<open>Inl\<close> with
  the message when it rejects), \<^verbatim>\<open>PorcupineManager.create\<close>, and \<^verbatim>\<open>start\<close>, \<^verbatim>\<open>stop\<close> and
  \<^verbatim>\<open>delete\<close> of the manager.
\<close>

datatype answer = Resolves | Rejects string

record voice_env = runtime +
  micAnswer :: "string + RequestResult"
  createAnswer :: answer
  startAnswer :: answer
  stopAnswer :: answer
  deleteAnswer :: answer

definition setState :: "VoiceService \<Rightarrow> VoiceServiceState \<Rightarrow> VoiceService" where
  "setState s newState = s\<lparr>currentState := newState\<rparr>"

text \<open>
  \<^verbatim>\<open>emit\<close> hands the event to the emitter, which calls the listeners of that event; with no
  listener, an \<^verbatim>\<open>error\<close> event makes the emitter throw, and any other event is dropped.
  Listeners are taken not to throw.
\<close>

definition emit :: "VoiceService \<Rightarrow> string \<Rightarrow> event_data \<Rightarrow> unit outcome \<times> voice_effect list" where
  "emit s ev d =
     (if ev \<in> set (listeners s) then (Returned (), [Emit ev d])
      else if ev = ''error'' then (Threw ''Unhandled error.'', [])
      else (Returned (), []))"

definition createError_v ::
  "voice_env \<Rightarrow> string \<Rightarrow> string \<Rightarrow> string \<Rightarrow> bool \<Rightarrow> string option \<Rightarrow> VoiceError" where
  "createError_v env c m um r td =
     \<lparr>code_v = c, message_v = m, userMessage_v = um, isRecoverable_v = r,
      platform = platformOS env, technicalDetails_v = td\<rparr>"

text \<open>
  The \<^verbatim>\<open>catch\<close> blocks of the methods have one shape: emit an \<^verbatim>\<open>error\<close> event, then (in
  \<^verbatim>\<open>initialize\<close> and \<^verbatim>\<open>start\<close>) set the state, and return \<^verbatim>\<open>false\<close>. When the emitter throws,
  the method throws, with the state as it was.
\<close>

definition caught ::
  "VoiceService \<Rightarrow> voice_effect list \<Rightarrow> VoiceError \<Rightarrow> (VoiceService \<Rightarrow> VoiceService)
     \<Rightarrow> bool outcome \<times> VoiceService \<times> voice_effect list" where
  "caught s t e after =
     (case emit s ''error'' (ErrorData e) of
        (Threw m, u) \<Rightarrow> (Threw m, s, t @ u)
      | (Returned x, u) \<Rightarrow> (Returned False, after s, t @ u))"

definition requestMicrophonePermission ::
  "voice_env \<Rightarrow> VoiceService \<Rightarrow> bool outcome \<times> VoiceService \<times> voice_effect list" where
  "requestMicrophonePermission env s =
     (if platformOS env = Android then
        (case micAnswer env of
           Inl m \<Rightarrow>
             caught s [RequestMicrophone]
               (createError_v env ''PERMISSION_ERROR'' ''Failed to request microphone permission''
                  ''Unable to request microphone access. Please check your device settings.''
                  True (Some m))
               (\<lambda>s. s)
         | Inr granted \<Rightarrow>
             (let s1 = s\<lparr>permissionGranted := (granted = GRANTED)\<rparr>
              in if \<not> permissionGranted s1 then
                   (Returned False, setState s1 PERMISSION_DENIED,
                    RequestMicrophone # snd (emit s1 ''permission_denied''
                      (ErrorData (createError_v env ''PERMISSION_DENIED''
                         ''Microphone permission denied''
                         ''Please enable microphone access in Settings to use voice commands.''
                         False None))))
                 else (Returned True, s1, [RequestMicrophone])))
      else (Returned True, s\<lparr>permissionGranted := True\<rparr>, []))"

definition initError :: "voice_env \<Rightarrow> string \<Rightarrow> VoiceError" where
  "initError env m =
     createError_v env ''INIT_ERROR'' ''Failed to initialize voice service''
       ''Unable to start voice detection. Please restart the app.'' True (Some m)"

text \<open>\<^verbatim>\<open>initialize\<close> from the validation of the access key on.\<close>

definition createManager ::
  "voice_env \<Rightarrow> VoiceService \<Rightarrow> voice_effect list
     \<Rightarrow> bool outcome \<times> VoiceService \<times> voice_effect list" where
  "createManager env s t =
     (if accessKey (config_v s) = [] \<or> length (accessKey (config_v s)) < 10 then
        caught s t (initError env ''Invalid Porcupine access key provided'')
          (\<lambda>s. setState s ERROR)
      else
        (let call = CreateManager (keyword (config_v s)) (sensitivity (config_v s))
         in case createAnswer env of
           Rejects m \<Rightarrow> caught s (t @ [call]) (initError env m) (\<lambda>s. setState s ERROR)
         | Resolves \<Rightarrow>
             (Returned True,
              setState (s\<lparr>porcupineManager := Some Handle, isInitialized := True\<rparr>) IDLE,
              t @ [call])))"

definition initialize ::
  "voice_env \<Rightarrow> VoiceService \<Rightarrow> bool outcome \<times> VoiceService \<times> voice_effect list" where
  "initialize env s =
     (let s0 = setState s INITIALIZING
      in if \<not> permissionGranted s0 then
           (case requestMicrophonePermission env s0 of
              (Threw m, s1, t1) \<Rightarrow> caught s1 t1 (initError env m) (\<lambda>s. setState s ERROR)
            | (Returned permitted, s1, t1) \<Rightarrow>
                if \<not> permitted then (Returned False, s1, t1)
                else createManager env s1 t1)
         else createManager env s0 [])"

definition startError :: "voice_env \<Rightarrow> string \<Rightarrow> VoiceError" where
  "startError env m =
     createError_v env ''START_ERROR'' ''Failed to start voice detection''
       ''Unable to start listening for voice commands.'' True (Some m)"

text \<open>\<^verbatim>\<open>start\<close> from the test for \<^verbatim>\<open>LISTENING\<close> on.\<close>

definition startManager ::
  "voice_env \<Rightarrow> VoiceService \<Rightarrow> voice_effect list
     \<Rightarrow> bool outcome \<times> VoiceService \<times> voice_effect list" where
  "startManager env s t =
     (if currentState s = LISTENING then (Returned True, s, t)
      else if porcupineManager s = None then
        caught s t (startError env ''Porcupine manager not initialized'')
          (\<lambda>s. setState s ERROR)
      else case startAnswer env of
        Rejects m \<Rightarrow>
          caught s (t @ [StartManager]) (startError env m) (\<lambda>s. setState s ERROR)
      | Resolves \<Rightarrow>
          (let s1 = setState s LISTENING
           in (Returned True, s1,
               t @ [StartManager] @ snd (emit s1 ''listening_started'' NoData))))"

definition start ::
  "voice_env \<Rightarrow> VoiceService \<Rightarrow> bool outcome \<times> VoiceService \<times> voice_effect list" where
  "start env s =
     (if \<not> isInitialized s then
        (case initialize env s of
           (Threw m, s1, t1) \<Rightarrow> caught s1 t1 (startError env m) (\<lambda>s. setState s ERROR)
         | (Returned initialized, s1, t1) \<Rightarrow>
             if \<not> initialized then (Returned False, s1, t1)
             else startManager env s1 t1)
      else startManager env s [])"

definition stop ::
  "voice_env \<Rightarrow> VoiceService \<Rightarrow> bool outcome \<times> VoiceService \<times> voice_effect list" where
  "stop env s =
     (if currentState s = IDLE \<or> porcupineManager s = None then
        (Returned True, setState s IDLE, [])
      else case stopAnswer env of
        Rejects m \<Rightarrow>
          caught s [StopManager]
            (createError_v env ''STOP_ERROR'' ''Failed to stop voice detection''
               ''Unable to stop voice detection properly.'' True (Some m))
            (\<lambda>s. s)
      | Resolves \<Rightarrow>
          (let s1 = setState s IDLE
           in (Returned True, s1, StopManager # snd (emit s1 ''listening_stopped'' NoData))))"

text \<open>
  \<^verbatim>\<open>attemptRecovery\<close>. The \<^verbatim>\<open>try\<close> block awaits \<^verbatim>\<open>stop()\<close>, two seconds and \<^verbatim>\<open>start()\<close> and
  then sets the counter to zero; the \<^verbatim>\<open>catch\<close> block, reached when one of the two calls
  throws, sets the timer that calls \<^verbatim>\<open>attemptRecovery\<close> again after three seconds. The
  values \<^verbatim>\<open>stop()\<close> and \<^verbatim>\<open>start()\<close> return are not read.
\<close>

definition attemptRecovery ::
  "voice_env \<Rightarrow> VoiceService \<Rightarrow> unit outcome \<times> VoiceService \<times> voice_effect list" where
  "attemptRecovery env s =
     (if retryCount_v s \<ge> maxRetries_v s then
        (case emit s ''error'' (ErrorData (createError_v env ''RECOVERY_FAILED''
                 ''Unable to recover voice service''
                 ''Voice detection is not working. Please restart the app.'' False None)) of
           (out, u) \<Rightarrow> (out, s, u))
      else
        (let s0 = s\<lparr>retryCount_v := retryCount_v s + 1\<rparr>
         in case stop env s0 of
           (Threw m, s1, t1) \<Rightarrow> (Returned (), s1, t1 @ [SetTimeout 3000 RetryRecovery])
         | (Returned stopped, s1, t1) \<Rightarrow>
             (case start env s1 of
                (Threw m, s2, t2) \<Rightarrow>
                  (Returned (), s2, t1 @ [Wait 2000] @ t2 @ [SetTimeout 3000 RetryRecovery])
              | (Returned started, s2, t2) \<Rightarrow>
                  (Returned (), s2\<lparr>retryCount_v := 0\<rparr>, t1 @ [Wait 2000] @ t2))))"

text \<open>
  The error callback given to Porcupine. \<^verbatim>\<open>attemptRecovery()\<close> is called without
  \<^verbatim>\<open>await\<close>; the model lets the recovery run to its end before the next event is handled.
\<close>

definition handlePorcupineError ::
  "voice_env \<Rightarrow> VoiceService \<Rightarrow> string \<Rightarrow> unit outcome \<times> VoiceService \<times> voice_effect list" where
  "handlePorcupineError env s err =
     (case emit s ''error'' (ErrorData (createError_v env ''PORCUPINE_ERROR''
              (''Porcupine engine error: '' @ err)
              ''Voice detection encountered an issue. Trying to recover...'' True (Some err))) of
        (Threw m, u) \<Rightarrow> (Threw m, s, u)
      | (Returned x, u) \<Rightarrow>
          (case attemptRecovery env (setState s ERROR) of
             (out, s1, t1) \<Rightarrow> (Returned (), s1, u @ t1)))"

text \<open>
  \<^verbatim>\<open>cleanup\<close>: with a manager, \<^verbatim>\<open>stop()\<close> and the manager's \<^verbatim>\<open>delete\<close>; then the listeners
  are removed. An exception on the way is logged and ends the method there.
\<close>

definition cleanup :: "voice_env \<Rightarrow> VoiceService \<Rightarrow> VoiceService \<times> voice_effect list" where
  "cleanup env s =
     (if porcupineManager s \<noteq> None then
        (case stop env s of
           (Threw m, s1, t1) \<Rightarrow> (s1, t1)
         | (Returned stopped, s1, t1) \<Rightarrow>
             (case deleteAnswer env of
                Rejects m \<Rightarrow> (s1, t1 @ [DeleteManager])
              | Resolves \<Rightarrow>
                  (setState (s1\<lparr>porcupineManager := None, listeners := [],
                      isInitialized := False\<rparr>) IDLE,
                   t1 @ [DeleteManager])))
      else (setState (s\<lparr>listeners := [], isInitialized := False\<rparr>) IDLE, []))"

text \<open>The detection callback given to Porcupine, and the callback of the timer it sets.\<close>

definition handleKeywordDetection ::
  "VoiceService \<Rightarrow> int \<Rightarrow> VoiceService \<times> voice_effect list" where
  "handleKeywordDetection s keywordIndex =
     (let s1 = setState s PROCESSING
      in (s1, snd (emit s1 ''keyword_detected''
                (KeywordData (keyword (config_v s1)) keywordIndex (sensitivity (config_v s1))))
              @ [SetTimeout 1000 ResetToListening]))"

definition resetToListening :: "VoiceService \<Rightarrow> VoiceService" where
  "resetToListening s = (if currentState s = PROCESSING then setState s LISTENING else s)"

text \<open>\<^verbatim>\<open>updateSensitivity\<close> takes a value between 0 and 1 and ignores any other.\<close>

definition updateSensitivity :: "VoiceService \<Rightarrow> real \<Rightarrow> VoiceService" where
  "updateSensitivity s v =
     (if v \<ge> 0 \<and> v \<le> 1 then s\<lparr>config_v := (config_v s)\<lparr>sensitivity := v\<rparr>\<rparr> else s)"

text \<open>
  A sequence of classifier errors, each with the answers of the libraries during its
  recovery, handled one after the other.
\<close>

fun classifierErrors ::
  "(string \<times> voice_env) list \<Rightarrow> VoiceService \<Rightarrow> VoiceService \<times> voice_effect list" where
  "classifierErrors [] s = (s, [])"
| "classifierErrors ((err, env) # rest) s =
     (case handlePorcupineError env s err of
        (out, s1, t1) \<Rightarrow>
          (case classifierErrors rest s1 of (s2, t2) \<Rightarrow> (s2, t1 @ t2)))"

text \<open>
  Reading a trace: the recovery cycles are the two-second waits between \<^verbatim>\<open>stop()\<close> and
  \<^verbatim>\<open>start()\<close>; the terminal error is the \<^verbatim>\<open>error\<close> event with the code \<^verbatim>\<open>RECOVERY_FAILED\<close>.
\<close>

definition recoveryCycles :: "voice_effect list \<Rightarrow> nat" where
  "recoveryCycles t = length (filter (\<lambda>e. e = Wait 2000) t)"

fun isRecoveryFailed :: "voice_effect \<Rightarrow> bool" where
  "isRecoveryFailed (Emit ev (ErrorData e)) = (code_v e = ''RECOVERY_FAILED'')"
| "isRecoveryFailed e = False"

text \<open>
  The states the listener can be in: it is constructed, listeners are registered, its
  public methods are called with any answers of the libraries, its timers fire, and
  Porcupine calls the two callbacks back while the manager it was created with exists.
  In each of them the listener is \<open>managed\<close>: a manager, and the states \<^verbatim>\<open>LISTENING\<close> and
  \<^verbatim>\<open>PROCESSING\<close>, are found only in an initialized listener.
\<close>

inductive reachable :: "VoiceService \<Rightarrow> bool" where
  constructed: "reachable (newVoiceService cfg)"
| listener: "reachable s \<Longrightarrow> reachable (on ev s)"
| permission: "reachable s \<Longrightarrow> requestMicrophonePermission env s = (out, s', t) \<Longrightarrow> reachable s'"
| initialized: "reachable s \<Longrightarrow> initialize env s = (out, s', t) \<Longrightarrow> reachable s'"
| started: "reachable s \<Longrightarrow> start env s = (out, s', t) \<Longrightarrow> reachable s'"
| stopped: "reachable s \<Longrightarrow> stop env s = (out, s', t) \<Longrightarrow> reachable s'"
| cleaned: "reachable s \<Longrightarrow> cleanup env s = (s', t) \<Longrightarrow> reachable s'"
| tuned: "reachable s \<Longrightarrow> reachable (updateSensitivity s v)"
| detected: "reachable s \<Longrightarrow> porcupineManager s \<noteq> None \<Longrightarrow>
     handleKeywordDetection s k = (s', t) \<Longrightarrow> reachable s'"
| reset: "reachable s \<Longrightarrow> reachable (resetToListening s)"
| faulted: "reachable s \<Longrightarrow> porcupineManager s \<noteq> None \<Longrightarrow>
     handlePorcupineError env s err = (out2, s', t) \<Longrightarrow> reachable s'"
| retried: "reachable s \<Longrightarrow> attemptRecovery env s = (out2, s', t) \<Longrightarrow> reachable s'"

definition managed :: "VoiceService \<Rightarrow> bool" where
  "managed s = ((porcupineManager s \<noteq> None \<longrightarrow> isInitialized s)
     \<and> (currentState s = LISTENING \<or> currentState s = PROCESSING \<longrightarrow> isInitialized s))"

text \<open>
  Reading a recovery: a call is \<open>heard\<close> when it returned (it did not throw), left the
  listeners and the two counters as they were, and its trace is \<open>quiet\<close>: no two-second
  wait, no terminal error, no retry timer.
\<close>

definition quiet :: "voice_effect list \<Rightarrow> bool" where
  "quiet t = (\<forall>e \<in> set t. e \<noteq> Wait 2000 \<and> \<not> isRecoveryFailed e
                \<and> e \<noteq> SetTimeout 3000 RetryRecovery)"

definition sameCounters :: "VoiceService \<Rightarrow> VoiceService \<Rightarrow> bool" where
  "sameCounters s1 s = (listeners s1 = listeners s \<and> retryCount_v s1 = retryCount_v s
     \<and> maxRetries_v s1 = maxRetries_v s)"

definition heard :: "'a outcome \<times> VoiceService \<times> voice_effect list \<Rightarrow> VoiceService \<Rightarrow> bool" where
  "heard r s =
     (case r of (Returned b, s1, t1) \<Rightarrow> sameCounters s1 s \<and> quiet t1
      | (Threw m, s1, t1) \<Rightarrow> False)"

section \<open>The permission hook (usePermissions.ts)\<close>

text \<open>
  The state of the hook: the three permission records with the flags, the list of errors,
  and the mounted flag. The statuses are the six string literals of the source.
\<close>

datatype PermissionType = Microphone | Contacts | Sms

datatype PermissionStatus = Granted | Denied | NeverAskAgain | Undetermined | Restricted
  | Unavailable

record Permission =
  type_p :: PermissionType
  status :: PermissionStatus
  isRequired :: bool
  requestCount :: int

datatype RecoveryAction = Retry | Settings | Alternative | Skip

record RecoveryOption =
  id_o :: string
  label :: string
  description :: string
  action :: RecoveryAction
  isRecommended :: bool

record PermissionError =
  type_e :: PermissionType
  status_e :: PermissionStatus
  code_e :: string
  message_e :: string
  userMessage_e :: string
  canRetry :: bool
  recoveryOptions :: "RecoveryOption list"
  platform_e :: OS

record PermissionsState =
  microphone :: Permission
  contacts :: Permission
  sms :: Permission
  isLoading :: bool
  hasCheckedAll :: bool
  criticalPermissionsDenied :: bool

record usePermissions =
  permissions :: PermissionsState
  errors :: "PermissionError list"
  isCheckingPermissions :: bool
  isMounted :: bool

definition initialPermissions :: usePermissions where
  "initialPermissions =
     \<lparr>permissions = \<lparr>
        microphone = \<lparr>type_p = Microphone, status = Undetermined, isRequired = True,
          requestCount = 0\<rparr>,
        contacts = \<lparr>type_p = Contacts, status = Undetermined, isRequired = False,
          requestCount = 0\<rparr>,
        sms = \<lparr>type_p = Sms, status = Undetermined, isRequired = False, requestCount = 0\<rparr>,
        isLoading = False, hasCheckedAll = False, criticalPermissionsDenied = False\<rparr>,
      errors = [], isCheckingPermissions = False, isMounted = True\<rparr>"

text \<open>\<^verbatim>\<open>permissions[type]\<close>, read and written.\<close>

fun permissionOf :: "PermissionsState \<Rightarrow> PermissionType \<Rightarrow> Permission" where
  "permissionOf p Microphone = microphone p"
| "permissionOf p Contacts = contacts p"
| "permissionOf p Sms = sms p"

fun setPermission :: "PermissionsState \<Rightarrow> PermissionType \<Rightarrow> Permission \<Rightarrow> PermissionsState" where
  "setPermission p Microphone v = p\<lparr>microphone := v\<rparr>"
| "setPermission p Contacts v = p\<lparr>contacts := v\<rparr>"
| "setPermission p Sms v = p\<lparr>sms := v\<rparr>"

fun typeName :: "PermissionType \<Rightarrow> string" where
  "typeName Microphone = ''microphone''"
| "typeName Contacts = ''contacts''"
| "typeName Sms = ''sms''"

fun deniedMessage :: "PermissionType \<Rightarrow> string" where
  "deniedMessage Microphone = ''Without microphone access, Evie cannot listen for voice commands. You can still use the app by typing messages manually.''"
| "deniedMessage Contacts = ''Without contacts access, you can still send messages by entering phone numbers manually.''"
| "deniedMessage Sms = ''Without SMS permission, Evie cannot send messages automatically. You can copy message text and send it manually.''"

text \<open>
  \<^verbatim>\<open>updatePermission\<close>: nothing once the component is unmounted; otherwise the update is
  applied to the latest state, and the critical flag is computed from the microphone status
  of the state before the update.
\<close>

definition updatePermission ::
  "PermissionType \<Rightarrow> (Permission \<Rightarrow> Permission) \<Rightarrow> usePermissions \<Rightarrow> usePermissions" where
  "updatePermission ty updates h =
     (if \<not> isMounted h then h
      else
        (let prev = permissions h
         in h\<lparr>permissions := (setPermission prev ty (updates (permissionOf prev ty)))
              \<lparr>criticalPermissionsDenied :=
                 (status (microphone prev) = Denied \<or> status (microphone prev) = NeverAskAgain)\<rparr>\<rparr>))"

text \<open>
  \<^verbatim>\<open>createError\<close> of the hook reads \<^verbatim>\<open>permissions[type].isRequired\<close> from the state its
  closure captured (\<open>snap\<close>).
\<close>

definition createError_p ::
  "OS \<Rightarrow> PermissionsState \<Rightarrow> PermissionType \<Rightarrow> PermissionStatus \<Rightarrow> string \<Rightarrow> string \<Rightarrow> string
     \<Rightarrow> bool \<Rightarrow> PermissionError" where
  "createError_p os snap ty st c m um cr =
     \<lparr>type_e = ty, status_e = st, code_e = c, message_e = m, userMessage_e = um, canRetry = cr,
      recoveryOptions =
        (if cr \<and> st \<noteq> NeverAskAgain then
           [\<lparr>id_o = ''retry'', label = ''Try Again'', description = ''Request permission again'',
             action = Retry, isRecommended = True\<rparr>]
         else [])
        @ (if st = NeverAskAgain \<or> st = Denied then
             [\<lparr>id_o = ''settings'', label = ''Open Settings'',
               description = ''Go to device settings to enable permission'',
               action = Settings, isRecommended = (st = NeverAskAgain)\<rparr>]
           else [])
        @ (case ty of
             Microphone \<Rightarrow>
               [\<lparr>id_o = ''alternative'', label = ''Use Manual Input'',
                 description = ''Type messages instead of using voice commands'',
                 action = Alternative, isRecommended = False\<rparr>]
           | Contacts \<Rightarrow>
               [\<lparr>id_o = ''alternative'', label = ''Enter Phone Numbers'',
                 description = ''Send messages by typing phone numbers manually'',
                 action = Alternative, isRecommended = False\<rparr>]
           | Sms \<Rightarrow>
               [\<lparr>id_o = ''alternative'', label = ''Copy & Send'',
                 description = ''Copy message text and send through your messaging app'',
                 action = Alternative, isRecommended = False\<rparr>])
        @ (if \<not> isRequired (permissionOf snap ty) then
             [\<lparr>id_o = ''skip'', label = ''Continue Without'',
               description = ''Skip this permission and continue using the app'',
               action = Skip, isRecommended = False\<rparr>]
           else []),
      platform_e = os\<rparr>"

definition addError :: "PermissionError \<Rightarrow> usePermissions \<Rightarrow> usePermissions" where
  "addError e h =
     (if \<not> isMounted h then h
      else h\<lparr>errors := filter (\<lambda>x. type_e x \<noteq> type_e e) (errors h) @ [e]\<rparr>)"

definition clearError :: "PermissionType \<Rightarrow> usePermissions \<Rightarrow> usePermissions" where
  "clearError ty h = h\<lparr>errors := filter (\<lambda>x. type_e x \<noteq> ty) (errors h)\<rparr>"

text \<open>The calls of \<^verbatim>\<open>PermissionsAndroid\<close> the hook makes.\<close>

datatype os_call = CheckCall PermissionType | RequestCall PermissionType

text \<open>
  \<^verbatim>\<open>checkPermission\<close>; \<open>answer\<close> is what \<^verbatim>\<open>PermissionsAndroid.check\<close> resolves to, \<open>None\<close> when
  it rejects.
\<close>

definition checkPermission ::
  "OS \<Rightarrow> bool option \<Rightarrow> PermissionsState \<Rightarrow> PermissionType \<Rightarrow> usePermissions
     \<Rightarrow> PermissionStatus \<times> usePermissions \<times> os_call list" where
  "checkPermission os answer snap ty h =
     (if os = Android then
        (case answer of
           Some hasIt \<Rightarrow>
             (let st = (if hasIt then Granted else Denied)
              in (st, updatePermission ty (\<lambda>p. p\<lparr>status := st\<rparr>) h, [CheckCall ty]))
         | None \<Rightarrow>
             (Unavailable,
              addError (createError_p os snap ty Unavailable ''CHECK_ERROR''
                (''Failed to check '' @ typeName ty @ '' permission'')
                (''Unable to check '' @ typeName ty @ '' access. Please try again.'') True) h,
              [CheckCall ty]))
      else (Undetermined, updatePermission ty (\<lambda>p. p\<lparr>status := Undetermined\<rparr>) h, []))"

text \<open>The \<^verbatim>\<open>switch\<close> of \<^verbatim>\<open>requestPermission\<close> over the result of the request.\<close>

fun statusOf :: "RequestResult \<Rightarrow> PermissionStatus" where
  "statusOf GRANTED = Granted"
| "statusOf DENIED = Denied"
| "statusOf NEVER_ASK_AGAIN = NeverAskAgain"

text \<open>
  \<^verbatim>\<open>requestPermission\<close>; \<open>answer\<close> is what \<^verbatim>\<open>PermissionsAndroid.request\<close> resolves to, \<open>None\<close>
  when it rejects; \<open>snap\<close> is the state the closure captured, from which the request count
  is read.
\<close>

definition requestPermission ::
  "OS \<Rightarrow> RequestResult option \<Rightarrow> PermissionsState \<Rightarrow> PermissionType \<Rightarrow> usePermissions
     \<Rightarrow> PermissionStatus \<times> usePermissions \<times> os_call list" where
  "requestPermission os answer snap ty h =
     (let h1 = clearError ty h;
          h2 = updatePermission ty
                 (\<lambda>p. p\<lparr>requestCount := requestCount (permissionOf snap ty) + 1\<rparr>) h1
      in if os = Android then
           (case answer of
              Some result \<Rightarrow>
                (let st = statusOf result;
                     h3 = updatePermission ty (\<lambda>p. p\<lparr>status := st\<rparr>) h2;
                     h4 = (if st \<noteq> Granted then
                             addError (createError_p os snap ty st ''PERMISSION_DENIED''
                               (typeName ty @ '' permission denied'') (deniedMessage ty)
                               (st \<noteq> NeverAskAgain)) h3
                           else h3)
                 in (st, h4, [RequestCall ty]))
            | None \<Rightarrow>
                (Unavailable,
                 updatePermission ty (\<lambda>p. p\<lparr>status := Unavailable\<rparr>)
                   (addError (createError_p os snap ty Unavailable ''REQUEST_ERROR''
                      (''Failed to request '' @ typeName ty @ '' permission'')
                      (''Unable to request '' @ typeName ty @ '' access. Please try again.'')
                      True) h2),
                 [RequestCall ty]))
         else (Granted, updatePermission ty (\<lambda>p. p\<lparr>status := Granted\<rparr>) h2, []))"

section \<open>Inputs of the scenarios\<close>

text \<open>
  A message, and the answers of the libraries during one call, for the concrete runs
  below. \<open>wellFormed\<close> is the shape every result of a send is to have: success exactly
  when no error is attached, the status \<^verbatim>\<open>sent\<close> on success, and on failure an error with a
  code and a user message (its recoverability flag is a field of the record).
\<close>

definition mkMessage :: "jsstring \<Rightarrow> jsstring \<Rightarrow> SMSMessage" where
  "mkMessage recipient text = \<lparr>id_msg = lit ''m1'', to = recipient, body = text, priority = None\<rparr>"

definition androidAnswers ::
  "bool option \<Rightarrow> RequestResult option \<Rightarrow> string + (bool \<times> bool \<times> bool) \<Rightarrow> android_env" where
  "androidAnswers c r a = \<lparr>platformOS = Android, checkAnswer = c, requestAnswer = r,
     sendAnswer = a, generatedId = lit ''sms_1''\<rparr>"

definition iosAnswers :: "axios_answer \<Rightarrow> ios_env" where
  "iosAnswers a = \<lparr>platformOS = IOS, postAnswer = a, generatedId_ios = lit ''ios_sms_1''\<rparr>"

definition wellFormed :: "SMSResult \<Rightarrow> bool" where
  "wellFormed r =
     ((success r \<longleftrightarrow> error r = None)
      \<and> (success r \<longrightarrow> deliveryStatus r = SENT)
      \<and> (\<not> success r \<longrightarrow>
           (case error r of Some e \<Rightarrow> code e \<noteq> [] \<and> userMessage e \<noteq> [] | None \<Rightarrow> False)))"

text \<open>
  A listener configured as the hook \<^verbatim>\<open>useVoiceDetection\<close> does it, with the five listeners
  the hook registers; the answers of the libraries during one call; and the listener after
  a first successful \<^verbatim>\<open>start()\<close>.
\<close>

definition sunshineConfig :: VoiceServiceConfig where
  "sunshineConfig = \<lparr>accessKey = lit ''0123456789abcdef'', keyword = lit ''sunshine'',
     sensitivity = 1 / 2, enableDebugging_v = False\<rparr>"

definition hookedVoiceService :: VoiceService where
  "hookedVoiceService =
     on ''error'' (on ''permission_denied'' (on ''listening_stopped''
       (on ''listening_started'' (on ''keyword_detected'' (newVoiceService sunshineConfig)))))"

definition voiceAnswers :: "answer \<Rightarrow> answer \<Rightarrow> voice_env" where
  "voiceAnswers startA stopA = \<lparr>platformOS = Android, micAnswer = Inr GRANTED,
     createAnswer = Resolves, startAnswer = startA, stopAnswer = stopA,
     deleteAnswer = Resolves\<rparr>"

definition listeningVoiceService :: VoiceService where
  "listeningVoiceService = fst (snd (start (voiceAnswers Resolves Resolves) hookedVoiceService))"

text \<open>
  The hook after a request for the send permission that the system answered with
  \<^verbatim>\<open>never_ask_again\<close>, and the direct-send service after the same answer.
\<close>

definition neverAskAgainSms :: usePermissions where
  "neverAskAgainSms = fst (snd (requestPermission Android (Some NEVER_ASK_AGAIN)
     (permissions initialPermissions) Sms initialPermissions))"

definition neverAskAgainService :: AndroidSMSService where
  "neverAskAgainService = fst (snd (requestSMSPermission
     (androidAnswers (Some False) (Some NEVER_ASK_AGAIN) (Inr (True, False, False)))
     (newAndroidSMSService Android)))"

section \<open>Facts about strings\<close>

lemma stripNonDigits_digits: "list_all isDigit ds \<Longrightarrow> stripNonDigits ds = ds"
  by (induction ds) (simp_all add: stripNonDigits_def)

lemma stripNonDigits_plus: "stripNonDigits (lit ''+'' @ s) = stripNonDigits s"
  by (simp add: stripNonDigits_def lit_def isDigit_def)

lemma stripped_no_plus: "\<not> startsWith (stripNonDigits s) (lit ''+'')"
proof
  assume "startsWith (stripNonDigits s) (lit ''+'')"
  then have "take 1 (stripNonDigits s) = [43]"
    by (simp add: startsWith_def lit_def)
  then have "43 \<in> set (stripNonDigits s)"
    by (metis in_set_takeD list.set_intros(1))
  then show False
    by (simp add: stripNonDigits_def isDigit_def)
qed

section \<open>Phone-number normalisation\<close>

text \<open>
  C3, as stated, at the input \<^verbatim>\<open>"+5551234567"\<close>: the string begins with \<^verbatim>\<open>+\<close> and has
  exactly ten digits, and both services return \<^verbatim>\<open>"+15551234567"\<close>, not the input.
\<close>

theorem formatPhoneNumber_plus_counterexample:
  "startsWith (lit ''+5551234567'') (lit ''+'')
   \<and> length (stripNonDigits (lit ''+5551234567'')) = 10
   \<and> formatPhoneNumber (lit ''+5551234567'') = lit ''+15551234567''
   \<and> formatPhoneNumber (lit ''+5551234567'') \<noteq> lit ''+5551234567''
   \<and> formatPhoneNumber_ios (lit ''+5551234567'') = lit ''+15551234567''
   \<and> formatPhoneNumber_ios (lit ''+5551234567'') \<noteq> lit ''+5551234567''"
  by (simp add: formatPhoneNumber_def formatPhoneNumber_ios_def stripNonDigits_def
      startsWith_def lit_def isDigit_def)

text \<open>
  C3 (amended): in both services, for every input string: ten digits after stripping give
  \<^verbatim>\<open>+1\<close> followed by the digits; eleven digits starting with \<^verbatim>\<open>1\<close> give \<^verbatim>\<open>+\<close> followed by
  the digits; and an input that is \<^verbatim>\<open>+\<close> followed by digits only, other than ten of them,
  is returned unchanged.
\<close>

theorem formatPhoneNumber_normalises:
  "(length (stripNonDigits p) = 10 \<longrightarrow>
      formatPhoneNumber p = lit ''+1'' @ stripNonDigits p
      \<and> formatPhoneNumber_ios p = lit ''+1'' @ stripNonDigits p)
   \<and> (length (stripNonDigits p) = 11 \<and> startsWith (stripNonDigits p) (lit ''1'') \<longrightarrow>
      formatPhoneNumber p = lit ''+'' @ stripNonDigits p
      \<and> formatPhoneNumber_ios p = lit ''+'' @ stripNonDigits p)
   \<and> (p = lit ''+'' @ ds \<and> list_all isDigit ds \<and> length ds \<noteq> 10 \<longrightarrow>
      formatPhoneNumber p = p \<and> formatPhoneNumber_ios p = p)"
proof (intro conjI impI)
  assume "p = lit ''+'' @ ds \<and> list_all isDigit ds \<and> length ds \<noteq> 10"
  then have p: "p = lit ''+'' @ ds" and s: "stripNonDigits p = ds" and n: "length ds \<noteq> 10"
    by (simp_all add: stripNonDigits_plus stripNonDigits_digits)
  have np: "\<not> startsWith ds (lit ''+'')"
    using stripped_no_plus [of p] s by simp
  show "formatPhoneNumber p = p"
    using s n np p by (simp add: formatPhoneNumber_def Let_def)
  show "formatPhoneNumber_ios p = p"
    using s n np p by (simp add: formatPhoneNumber_ios_def Let_def)
qed (simp_all add: formatPhoneNumber_def formatPhoneNumber_ios_def Let_def)

theorem formatPhoneNumber_normalises_witness:
  "formatPhoneNumber (lit ''(555) 123-4567'') = lit ''+15551234567''
   \<and> formatPhoneNumber_ios (lit ''(555) 123-4567'') = lit ''+15551234567''
   \<and> formatPhoneNumber (lit ''1-555-123-4567'') = lit ''+15551234567''
   \<and> formatPhoneNumber_ios (lit ''1-555-123-4567'') = lit ''+15551234567''
   \<and> formatPhoneNumber (lit ''+447911123456'') = lit ''+447911123456''
   \<and> formatPhoneNumber_ios (lit ''+447911123456'') = lit ''+447911123456''"
proof -
  have a: "length (stripNonDigits (lit ''(555) 123-4567'')) = 10"
    by (simp add: stripNonDigits_def lit_def isDigit_def)
  have b: "length (stripNonDigits (lit ''1-555-123-4567'')) = 11
           \<and> startsWith (stripNonDigits (lit ''1-555-123-4567'')) (lit ''1'')"
    by (simp add: stripNonDigits_def lit_def isDigit_def startsWith_def)
  have c: "lit ''+447911123456'' = lit ''+'' @ lit ''447911123456''
           \<and> list_all isDigit (lit ''447911123456'') \<and> length (lit ''447911123456'') \<noteq> 10"
    by (simp add: lit_def isDigit_def)
  have sa: "stripNonDigits (lit ''(555) 123-4567'') = lit ''5551234567''"
    by (simp add: stripNonDigits_def lit_def isDigit_def)
  have sb: "stripNonDigits (lit ''1-555-123-4567'') = lit ''15551234567''"
    by (simp add: stripNonDigits_def lit_def isDigit_def)
  from formatPhoneNumber_normalises [of "lit ''(555) 123-4567''" "[]"] a sa
  have 1: "formatPhoneNumber (lit ''(555) 123-4567'') = lit ''+15551234567''
           \<and> formatPhoneNumber_ios (lit ''(555) 123-4567'') = lit ''+15551234567''"
    by (simp add: lit_def)
  from formatPhoneNumber_normalises [of "lit ''1-555-123-4567''" "[]"] b sb
  have 2: "formatPhoneNumber (lit ''1-555-123-4567'') = lit ''+15551234567''
           \<and> formatPhoneNumber_ios (lit ''1-555-123-4567'') = lit ''+15551234567''"
    by (simp add: lit_def)
  from formatPhoneNumber_normalises [of "lit ''+447911123456''" "lit ''447911123456''"] c
  have 3: "formatPhoneNumber (lit ''+447911123456'') = lit ''+447911123456''
           \<and> formatPhoneNumber_ios (lit ''+447911123456'') = lit ''+447911123456''"
    by blast
  from 1 2 3 show ?thesis by blast
qed

text \<open>
  The last test of \<^verbatim>\<open>formatPhoneNumber\<close> is made on \<^verbatim>\<open>cleaned\<close>, which holds digits only, so
  its first branch is never taken: an international number written with separators comes
  back without them.
\<close>

lemma formatPhoneNumber_separators:
  "formatPhoneNumber (lit ''+44 7911 123456'') = lit ''+447911123456''
   \<and> formatPhoneNumber_ios (lit ''+44 7911 123456'') = lit ''+447911123456''"
  by (simp add: formatPhoneNumber_def formatPhoneNumber_ios_def stripNonDigits_def
      startsWith_def lit_def isDigit_def)

section \<open>Facts about the direct-send service\<close>

lemma checkSMSPermission_keeps:
  "checkSMSPermission env s = (ps, s1, t1) \<Longrightarrow>
     retryCount s1 = retryCount s \<and> config s1 = config s"
  by (auto simp: checkSMSPermission_def Let_def split: if_splits option.splits)

lemma requestSMSPermission_keeps:
  "requestSMSPermission env s = (g, s1, t1) \<Longrightarrow>
     retryCount s1 = retryCount s \<and> config s1 = config s"
  by (auto simp: requestSMSPermission_def Let_def split: if_splits option.splits)

lemma validateAndSend_keeps:
  "validateAndSend env s msg = (r, s1, t1) \<Longrightarrow>
     config s1 = config s \<and> (\<not> success r \<longrightarrow> retryCount s1 = retryCount s)"
  by (auto simp: validateAndSend_def Let_def failure_def split: if_splits sum.splits prod.splits)

lemma sendSMS_keeps:
  "sendSMS env s msg = (r, s1, t1) \<Longrightarrow>
     config s1 = config s \<and> (\<not> success r \<longrightarrow> retryCount s1 = retryCount s)"
  apply (simp add: sendSMS_def Let_def failure_def split: if_splits prod.splits)
  apply (auto dest!: checkSMSPermission_keeps requestSMSPermission_keeps validateAndSend_keeps)
  done

lemma announce_no_delay: "filter isDelay (announceToScreenReader s m) = []"
  by (simp add: announceToScreenReader_def)

lemma checkSMSPermission_no_delay:
  "checkSMSPermission env s = (ps, s1, t) \<Longrightarrow> filter isDelay t = []"
  by (auto simp: checkSMSPermission_def Let_def split: if_splits option.splits)

lemma requestSMSPermission_no_delay:
  "requestSMSPermission env s = (g, s1, t) \<Longrightarrow> filter isDelay t = []"
  by (auto simp: requestSMSPermission_def Let_def announce_no_delay
      split: if_splits option.splits)

lemma validateAndSend_no_delay:
  "validateAndSend env s msg = (r, s1, t) \<Longrightarrow> filter isDelay t = []"
  by (auto simp: validateAndSend_def Let_def announce_no_delay
      split: if_splits sum.splits prod.splits)

lemma sendSMS_no_delay:
  "sendSMS env s msg = (r, s1, t) \<Longrightarrow> filter isDelay t = []"
  apply (simp add: sendSMS_def Let_def split: if_splits prod.splits)
  apply (auto simp: announce_no_delay
      dest!: checkSMSPermission_no_delay requestSMSPermission_no_delay validateAndSend_no_delay)
  done

lemma sendSMSWithRetry_stop:
  "sendSMS (envs k) s msg = (r, s1, t1) \<Longrightarrow>
   \<not> (\<not> success r \<and> errorIsRecoverable r \<and> retryCount s1 < maxRetries (config s1)) \<Longrightarrow>
   sendSMSWithRetry envs k s msg = (r, s1\<lparr>retryCount := 0\<rparr>, t1)"
  by (subst sendSMSWithRetry.simps) auto

lemma sendSMSWithRetry_retry:
  "sendSMS (envs k) s msg = (r, s1, t1) \<Longrightarrow>
   \<not> success r \<Longrightarrow> errorIsRecoverable r \<Longrightarrow> retryCount s1 < maxRetries (config s1) \<Longrightarrow>
   sendSMSWithRetry envs (Suc k) (s1\<lparr>retryCount := retryCount s1 + 1\<rparr>) msg = (r', s3, t3) \<Longrightarrow>
   sendSMSWithRetry envs k s msg = (r', s3, t1 @ [Delay (retryDelay (config s1))] @ t3)"
  by (subst sendSMSWithRetry.simps) simp

lemma resultOfAttempt_0:
  "sendSMS (envs k) s msg = (r, s1, t1) \<Longrightarrow> resultOfAttempt envs msg k s 0 = r"
  by (simp add: resultOfAttempt_def)

lemma resultOfAttempt_Suc:
  "sendSMS (envs k) s msg = (r, s1, t1) \<Longrightarrow>
   resultOfAttempt envs msg k s (Suc j)
     = resultOfAttempt envs msg (Suc k) (s1\<lparr>retryCount := retryCount s1 + 1\<rparr>) j"
  by (simp add: resultOfAttempt_def)

lemma sendSMSWithRetry_policy:
  "retryCount s \<le> maxRetries (config s) \<Longrightarrow>
   sendSMSWithRetry envs k s msg = (r, s', t) \<Longrightarrow>
   retriedUpTo (maxRetries (config s) - retryCount s) (retryDelay (config s))
     (resultOfAttempt envs msg k s) r t
   \<and> retryCount s' = 0 \<and> config s' = config s"
proof (induction envs k s msg arbitrary: r s' t rule: sendSMSWithRetry.induct)
  case (1 envs k s msg)
  obtain r1 s1 t1 where first: "sendSMS (envs k) s msg = (r1, s1, t1)"
    by (cases "sendSMS (envs k) s msg") auto
  note keeps = sendSMS_keeps [OF first]
  note nodelay = sendSMS_no_delay [OF first]
  have r0: "resultOfAttempt envs msg k s 0 = r1"
    by (rule resultOfAttempt_0 [of envs k s msg r1 s1 t1, OF first])
  have nd1: "\<forall>e \<in> set t1. \<not> isDelay e"
    using nodelay by (simp add: filter_empty_conv)
  show ?case
  proof (cases "\<not> success r1 \<and> errorIsRecoverable r1 \<and> retryCount s1 < maxRetries (config s1)")
    case False
    from sendSMSWithRetry_stop [of envs k s msg r1 s1 t1, OF first False] "1.prems"(2)
    have eq: "r = r1" "s' = s1\<lparr>retryCount := 0\<rparr>" "t = t1" by simp_all
    have rt: "retries t = 0" using nodelay eq by (simp add: retries_def)
    have stop: "\<not> success r \<and> errorIsRecoverable r
                  \<longrightarrow> maxRetries (config s) - retryCount s = 0"
      using False keeps eq "1.prems"(1) by auto
    show ?thesis
      using rt nd1 stop eq keeps r0 "1.prems"(1) by (simp add: retriedUpTo_def)
  next
    case True
    define s2 where "s2 = s1\<lparr>retryCount := retryCount s1 + 1\<rparr>"
    obtain r3 s3 t3 where rest: "sendSMSWithRetry envs (Suc k) s2 msg = (r3, s3, t3)"
      by (cases "sendSMSWithRetry envs (Suc k) s2 msg") auto
    from True have f: "\<not> success r1" "errorIsRecoverable r1"
      "retryCount s1 < maxRetries (config s1)"
      by simp_all
    from sendSMSWithRetry_retry [of envs k s msg r1 s1 t1, OF first f rest [unfolded s2_def]]
      "1.prems"(2)
    have eq: "r = r3" "s' = s3" "t = t1 @ [Delay (retryDelay (config s1))] @ t3" by simp_all
    have le2: "retryCount s2 \<le> maxRetries (config s2)"
      using f by (simp add: s2_def)
    have IH: "retriedUpTo (maxRetries (config s2) - retryCount s2) (retryDelay (config s2))
               (resultOfAttempt envs msg (Suc k) s2) r3 t3
              \<and> retryCount s3 = 0 \<and> config s3 = config s2"
      using "1.IH" [OF first [symmetric] refl refl True s2_def le2 rest] .
    have c2: "config s2 = config s" "retryCount s2 = retryCount s + 1"
      using keeps f by (simp_all add: s2_def)
    have rt: "retries t = Suc (retries t3)"
      using nodelay eq by (simp add: retries_def)
    have res: "resultOfAttempt envs msg k s (Suc j) = resultOfAttempt envs msg (Suc k) s2 j"
      for j
      using resultOfAttempt_Suc [of envs k s msg r1 s1 t1, OF first] by (simp add: s2_def)
    have prev: "\<not> success (resultOfAttempt envs msg k s j)
                \<and> errorIsRecoverable (resultOfAttempt envs msg k s j)"
      if "j < Suc (retries t3)" for j
    proof (cases j)
      case 0
      then show ?thesis using r0 f by simp
    next
      case (Suc j')
      then show ?thesis using that IH res by (simp add: retriedUpTo_def)
    qed
    show ?thesis
      unfolding retriedUpTo_def rt
      using IH c2 eq keeps nd1 prev res
      by (auto simp: retriedUpTo_def)
  qed
qed

section \<open>Facts about the relay service\<close>

lemma sendSMS_ios_keeps:
  "sendSMS_ios env s msg = (r, s1, t1) \<Longrightarrow>
     config_ios s1 = config_ios s \<and> retryCount_ios s1 = retryCount_ios s"
  by (auto simp: sendSMS_ios_def caught_ios_def updateUsageStats_def Let_def
      split: if_splits prod.splits axios_answer.splits option.splits)

lemma announce_ios_no_delay: "filter isDelay (announceToScreenReader_ios s m) = []"
  by (simp add: announceToScreenReader_ios_def)

lemma sendSMS_ios_no_delay:
  "sendSMS_ios env s msg = (r, s1, t) \<Longrightarrow> filter isDelay t = []"
  by (auto simp: sendSMS_ios_def caught_ios_def updateUsageStats_def Let_def
      announce_ios_no_delay
      split: if_splits prod.splits axios_answer.splits option.splits)

lemma sendSMSWithRetry_ios_stop:
  "sendSMS_ios (envs k) s msg = (r, s1, t1) \<Longrightarrow>
   \<not> (\<not> success r \<and> errorIsRecoverable_ios r
        \<and> retryCount_ios s1 < maxRetries_ios (config_ios s1)) \<Longrightarrow>
   sendSMSWithRetry_ios envs k s msg = (r, s1\<lparr>retryCount_ios := 0\<rparr>, t1)"
  by (subst sendSMSWithRetry_ios.simps) auto

lemma sendSMSWithRetry_ios_retry:
  "sendSMS_ios (envs k) s msg = (r, s1, t1) \<Longrightarrow>
   \<not> success r \<Longrightarrow> errorIsRecoverable_ios r \<Longrightarrow>
   retryCount_ios s1 < maxRetries_ios (config_ios s1) \<Longrightarrow>
   sendSMSWithRetry_ios envs (Suc k) (s1\<lparr>retryCount_ios := retryCount_ios s1 + 1\<rparr>) msg
     = (r', s3, t3) \<Longrightarrow>
   sendSMSWithRetry_ios envs k s msg
     = (r', s3, t1 @ [Delay (retryDelay_ios (config_ios s1))] @ t3)"
  by (subst sendSMSWithRetry_ios.simps) simp

lemma resultOfAttempt_ios_0:
  "sendSMS_ios (envs k) s msg = (r, s1, t1) \<Longrightarrow> resultOfAttempt_ios envs msg k s 0 = r"
  by (simp add: resultOfAttempt_ios_def)

lemma resultOfAttempt_ios_Suc:
  "sendSMS_ios (envs k) s msg = (r, s1, t1) \<Longrightarrow>
   resultOfAttempt_ios envs msg k s (Suc j)
     = resultOfAttempt_ios envs msg (Suc k) (s1\<lparr>retryCount_ios := retryCount_ios s1 + 1\<rparr>) j"
  by (simp add: resultOfAttempt_ios_def)

lemma errorIsRecoverable_ios_eq: "errorIsRecoverable_ios r = errorIsRecoverable r"
  by (simp add: errorIsRecoverable_ios_def errorIsRecoverable_def)

lemma sendSMSWithRetry_ios_policy:
  "retryCount_ios s \<le> maxRetries_ios (config_ios s) \<Longrightarrow>
   sendSMSWithRetry_ios envs k s msg = (r, s', t) \<Longrightarrow>
   retriedUpTo (maxRetries_ios (config_ios s) - retryCount_ios s) (retryDelay_ios (config_ios s))
     (resultOfAttempt_ios envs msg k s) r t
   \<and> retryCount_ios s' = 0 \<and> config_ios s' = config_ios s"
proof (induction envs k s msg arbitrary: r s' t rule: sendSMSWithRetry_ios.induct)
  case (1 envs k s msg)
  obtain r1 s1 t1 where first: "sendSMS_ios (envs k) s msg = (r1, s1, t1)"
    by (cases "sendSMS_ios (envs k) s msg") auto
  note keeps = sendSMS_ios_keeps [OF first]
  note nodelay = sendSMS_ios_no_delay [OF first]
  have r0: "resultOfAttempt_ios envs msg k s 0 = r1"
    by (rule resultOfAttempt_ios_0 [of envs k s msg r1 s1 t1, OF first])
  have nd1: "\<forall>e \<in> set t1. \<not> isDelay e"
    using nodelay by (simp add: filter_empty_conv)
  show ?case
  proof (cases "\<not> success r1 \<and> errorIsRecoverable_ios r1
                 \<and> retryCount_ios s1 < maxRetries_ios (config_ios s1)")
    case False
    from sendSMSWithRetry_ios_stop [of envs k s msg r1 s1 t1, OF first False] "1.prems"(2)
    have eq: "r = r1" "s' = s1\<lparr>retryCount_ios := 0\<rparr>" "t = t1" by simp_all
    have rt: "retries t = 0" using nodelay eq by (simp add: retries_def)
    have stop: "\<not> success r \<and> errorIsRecoverable r
                  \<longrightarrow> maxRetries_ios (config_ios s) - retryCount_ios s = 0"
      using False keeps eq "1.prems"(1) by (auto simp: errorIsRecoverable_ios_eq)
    show ?thesis
      using rt nd1 stop eq keeps r0 "1.prems"(1) by (simp add: retriedUpTo_def)
  next
    case True
    define s2 where "s2 = s1\<lparr>retryCount_ios := retryCount_ios s1 + 1\<rparr>"
    obtain r3 s3 t3 where rest: "sendSMSWithRetry_ios envs (Suc k) s2 msg = (r3, s3, t3)"
      by (cases "sendSMSWithRetry_ios envs (Suc k) s2 msg") auto
    from True have f: "\<not> success r1" "errorIsRecoverable_ios r1"
      "retryCount_ios s1 < maxRetries_ios (config_ios s1)"
      by simp_all
    from sendSMSWithRetry_ios_retry
      [of envs k s msg r1 s1 t1, OF first f rest [unfolded s2_def]] "1.prems"(2)
    have eq: "r = r3" "s' = s3" "t = t1 @ [Delay (retryDelay_ios (config_ios s1))] @ t3"
      by simp_all
    have le2: "retryCount_ios s2 \<le> maxRetries_ios (config_ios s2)"
      using f by (simp add: s2_def)
    have IH: "retriedUpTo (maxRetries_ios (config_ios s2) - retryCount_ios s2)
               (retryDelay_ios (config_ios s2)) (resultOfAttempt_ios envs msg (Suc k) s2) r3 t3
              \<and> retryCount_ios s3 = 0 \<and> config_ios s3 = config_ios s2"
      using "1.IH" [OF first [symmetric] refl refl True s2_def le2 rest] .
    have c2: "config_ios s2 = config_ios s" "retryCount_ios s2 = retryCount_ios s + 1"
      using keeps f by (simp_all add: s2_def)
    have rt: "retries t = Suc (retries t3)"
      using nodelay eq by (simp add: retries_def)
    have res: "resultOfAttempt_ios envs msg k s (Suc j)
                 = resultOfAttempt_ios envs msg (Suc k) s2 j" for j
      using resultOfAttempt_ios_Suc [of envs k s msg r1 s1 t1, OF first] by (simp add: s2_def)
    have prev: "\<not> success (resultOfAttempt_ios envs msg k s j)
                \<and> errorIsRecoverable (resultOfAttempt_ios envs msg k s j)"
      if "j < Suc (retries t3)" for j
    proof (cases j)
      case 0
      then show ?thesis using r0 f by (simp add: errorIsRecoverable_ios_eq)
    next
      case (Suc j')
      then show ?thesis using that IH res by (simp add: retriedUpTo_def)
    qed
    show ?thesis
      unfolding retriedUpTo_def rt
      using IH c2 eq keeps nd1 prev res
      by (auto simp: retriedUpTo_def)
  qed
qed

lemmas string_eval = lit_def stripNonDigits_def isDigit_def startsWith_def trim_def
  isWhiteSpace_def

lemmas android_eval = sendSMSWithRetry.simps sendSMS_def checkSMSPermission_def
  requestSMSPermission_def validateAndSend_def validatePhoneNumber_def formatPhoneNumber_def
  announceToScreenReader_def createError_def failure_def errorIsRecoverable_def
  newAndroidSMSService_def defaultConfig_def androidAnswers_def mkMessage_def Let_def

lemmas ios_eval = sendSMSWithRetry_ios.simps sendSMS_ios_def caught_ios_def classifyError_def
  exceptionMessage_def isAvailable_ios_def updateUsageStats_def validatePhoneNumber_ios_def
  formatPhoneNumber_ios_def getFirebaseCloudFunctionUrl_def announceToScreenReader_ios_def
  createError_ios_def failure_def errorIsRecoverable_ios_def newIOSSMSService_def
  iosAnswers_def mkMessage_def Let_def

section \<open>The retry loop\<close>

text \<open>
  C6: a service between two runs has its retry counter at zero (the constructor sets it,
  and every run resets it). From such a state, with a maximum that is not negative,
  \<^verbatim>\<open>sendSMSWithRetry\<close> of either service retries at most \<^verbatim>\<open>maxRetries\<close> times, each time
  after \<^verbatim>\<open>retryDelay\<close> milliseconds, and only after a failure marked recoverable; it
  returns the result of its last \<^verbatim>\<open>sendSMS\<close> unchanged, a recoverable failure only once
  the retries are used up; and it leaves the counter at zero. A successful or
  non-recoverable first result is therefore returned without any retry.
\<close>

theorem sendSMSWithRetry_retries:
  assumes "retryCount s = 0" and "0 \<le> maxRetries (config s)"
    and "retryCount_ios s' = 0" and "0 \<le> maxRetries_ios (config_ios s')"
  shows "retriedUpTo (maxRetries (config s)) (retryDelay (config s))
           (resultOfAttempt envs msg 0 s)
           (fst (sendSMSWithRetry envs 0 s msg)) (snd (snd (sendSMSWithRetry envs 0 s msg)))
         \<and> retryCount (fst (snd (sendSMSWithRetry envs 0 s msg))) = 0
         \<and> retriedUpTo (maxRetries_ios (config_ios s')) (retryDelay_ios (config_ios s'))
           (resultOfAttempt_ios envs' msg 0 s')
           (fst (sendSMSWithRetry_ios envs' 0 s' msg))
           (snd (snd (sendSMSWithRetry_ios envs' 0 s' msg)))
         \<and> retryCount_ios (fst (snd (sendSMSWithRetry_ios envs' 0 s' msg))) = 0"
proof -
  obtain r s1 t where a: "sendSMSWithRetry envs 0 s msg = (r, s1, t)"
    by (cases "sendSMSWithRetry envs 0 s msg") auto
  obtain r' s1' t' where b: "sendSMSWithRetry_ios envs' 0 s' msg = (r', s1', t')"
    by (cases "sendSMSWithRetry_ios envs' 0 s' msg") auto
  from assms have le: "retryCount s \<le> maxRetries (config s)"
    and le': "retryCount_ios s' \<le> maxRetries_ios (config_ios s')"
    by simp_all
  from sendSMSWithRetry_policy [OF le a] sendSMSWithRetry_ios_policy [OF le' b] assms a b
  show ?thesis by simp
qed

theorem sendSMSWithRetry_retries_witness:
  "retries (snd (snd (sendSMSWithRetry
       (\<lambda>k. androidAnswers (Some True) None (Inr (False, False, True))) 0
       (newAndroidSMSService Android) (mkMessage (lit ''5551234567'') (lit ''hello''))))) = 3
   \<and> filter isDelay (snd (snd (sendSMSWithRetry
       (\<lambda>k. androidAnswers (Some True) None (Inr (False, False, True))) 0
       (newAndroidSMSService Android) (mkMessage (lit ''5551234567'') (lit ''hello'')))))
       = [Delay 2000, Delay 2000, Delay 2000]
   \<and> map_option code (error (fst (sendSMSWithRetry
       (\<lambda>k. androidAnswers (Some True) None (Inr (False, False, True))) 0
       (newAndroidSMSService Android) (mkMessage (lit ''5551234567'') (lit ''hello'')))))
       = Some ''SEND_FAILED''
   \<and> retries (snd (snd (sendSMSWithRetry_ios
       (\<lambda>k. iosAnswers (AxiosError (Some ''ECONNABORTED'') None ''timeout'')) 0
       (newIOSSMSService (lit ''evie'') []) (mkMessage (lit ''5551234567'') (lit ''hello''))))) = 3
   \<and> map_option code (error (fst (sendSMSWithRetry_ios
       (\<lambda>k. iosAnswers (AxiosError (Some ''ECONNABORTED'') None ''timeout'')) 0
       (newIOSSMSService (lit ''evie'') []) (mkMessage (lit ''5551234567'') (lit ''hello'')))))
       = Some ''TIMEOUT_ERROR''"
proof -
  let ?envs = "\<lambda>k::nat. androidAnswers (Some True) None (Inr (False, False, True))"
  let ?envs' = "\<lambda>k::nat. iosAnswers (AxiosError (Some ''ECONNABORTED'') None ''timeout'')"
  let ?s = "newAndroidSMSService Android"
  let ?s' = "newIOSSMSService (lit ''evie'') []"
  let ?m = "mkMessage (lit ''5551234567'') (lit ''hello'')"
  have h: "retryCount ?s = 0" "0 \<le> maxRetries (config ?s)"
    "retryCount_ios ?s' = 0" "0 \<le> maxRetries_ios (config_ios ?s')"
    by (simp_all add: newAndroidSMSService_def defaultConfig_def newIOSSMSService_def)
  note th = sendSMSWithRetry_retries [OF h, of ?envs ?m ?envs']
  have ev: "map_option code (error (fst (sendSMSWithRetry ?envs 0 ?s ?m))) = Some ''SEND_FAILED''"
    by (simp add: android_eval string_eval)
  have ev': "map_option code (error (fst (sendSMSWithRetry_ios ?envs' 0 ?s' ?m)))
       = Some ''TIMEOUT_ERROR''"
    by (simp add: ios_eval string_eval)
  have rc: "\<not> success (fst (sendSMSWithRetry ?envs 0 ?s ?m))
            \<and> errorIsRecoverable (fst (sendSMSWithRetry ?envs 0 ?s ?m))"
    by (simp add: android_eval string_eval)
  have rc': "\<not> success (fst (sendSMSWithRetry_ios ?envs' 0 ?s' ?m))
            \<and> errorIsRecoverable (fst (sendSMSWithRetry_ios ?envs' 0 ?s' ?m))"
    by (simp add: ios_eval string_eval errorIsRecoverable_def)
  have m: "maxRetries (config ?s) = 3" "maxRetries_ios (config_ios ?s') = 3"
    by (simp_all add: newAndroidSMSService_def defaultConfig_def newIOSSMSService_def)
  from th rc rc' m
  have "int (retries (snd (snd (sendSMSWithRetry ?envs 0 ?s ?m)))) = 3"
    and "int (retries (snd (snd (sendSMSWithRetry_ios ?envs' 0 ?s' ?m)))) = 3"
    unfolding retriedUpTo_def by simp_all
  moreover have "filter isDelay (snd (snd (sendSMSWithRetry ?envs 0 ?s ?m)))
      = [Delay 2000, Delay 2000, Delay 2000]"
    by (simp add: android_eval string_eval)
  ultimately show ?thesis using ev ev' by simp
qed

section \<open>Results of a send\<close>

lemma validateAndSend_wellFormed: "wellFormed (fst (validateAndSend env s msg))"
  by (auto simp: validateAndSend_def wellFormed_def failure_def createError_def Let_def
      split: sum.splits prod.splits)

lemma sendSMS_wellFormed: "wellFormed (fst (sendSMS env s msg))"
proof -
  have f: "wellFormed (failure d (createError c m um r sa td))"
    if "c \<noteq> []" "um \<noteq> []" for d c m um r sa td
    using that by (simp add: wellFormed_def failure_def createError_def)
  have v: "wellFormed r" if "validateAndSend e c msg = (r, c', u)" for e c r c' u
    using validateAndSend_wellFormed [of e c msg] that by simp
  show ?thesis
    by (auto simp: sendSMS_def Let_def f split: prod.splits dest!: v)
qed

lemma sendSMS_ios_wellFormed: "wellFormed (fst (sendSMS_ios env s msg))"
  by (auto simp: sendSMS_ios_def caught_ios_def classifyError_def updateUsageStats_def
      wellFormed_def failure_def createError_ios_def Let_def
      split: prod.splits axios_answer.splits option.splits)

text \<open>
  C10: every result of \<^verbatim>\<open>sendSMS\<close>, of the direct-send service and of the relay service,
  whatever the libraries answer, is well formed: \<^verbatim>\<open>success\<close> is true exactly when no error
  is attached; a successful result has the delivery status \<^verbatim>\<open>sent\<close>; a failing one (a
  cancellation by the user included) carries an error with a code, a user message and a
  recoverability flag.
\<close>

theorem sendSMS_result_wellFormed:
  "wellFormed (fst (sendSMS env s msg)) \<and> wellFormed (fst (sendSMS_ios env' s' msg'))"
  using sendSMS_wellFormed sendSMS_ios_wellFormed by simp

theorem sendSMS_result_wellFormed_witness:
  "success (fst (sendSMS (androidAnswers (Some True) None (Inr (True, False, False)))
       (newAndroidSMSService Android) (mkMessage (lit ''5551234567'') (lit ''hello''))))
   \<and> error (fst (sendSMS (androidAnswers (Some True) None (Inr (True, False, False)))
       (newAndroidSMSService Android) (mkMessage (lit ''5551234567'') (lit ''hello'')))) = None
   \<and> deliveryStatus (fst (sendSMS (androidAnswers (Some True) None (Inr (True, False, False)))
       (newAndroidSMSService Android) (mkMessage (lit ''5551234567'') (lit ''hello'')))) = SENT
   \<and> deliveryStatus (fst (sendSMS (androidAnswers (Some True) None (Inr (False, True, False)))
       (newAndroidSMSService Android) (mkMessage (lit ''5551234567'') (lit ''hello''))))
       = CANCELLED
   \<and> error (fst (sendSMS (androidAnswers (Some True) None (Inr (False, True, False)))
       (newAndroidSMSService Android) (mkMessage (lit ''5551234567'') (lit ''hello''))))
       \<noteq> None
   \<and> \<not> success (fst (sendSMS_ios (iosAnswers (Response 200 (Some
         \<lparr>data_success = False, data_messageId = None, data_error = Some ''quota''\<rparr>)))
       (newIOSSMSService (lit ''evie'') []) (mkMessage (lit ''5551234567'') (lit ''hello''))))
   \<and> error (fst (sendSMS_ios (iosAnswers (Response 200 (Some
         \<lparr>data_success = False, data_messageId = None, data_error = Some ''quota''\<rparr>)))
       (newIOSSMSService (lit ''evie'') []) (mkMessage (lit ''5551234567'') (lit ''hello''))))
       \<noteq> None"
proof -
  let ?r = "fst (sendSMS (androidAnswers (Some True) None (Inr (True, False, False)))
       (newAndroidSMSService Android) (mkMessage (lit ''5551234567'') (lit ''hello'')))"
  let ?r' = "fst (sendSMS_ios (iosAnswers (Response 200 (Some
         \<lparr>data_success = False, data_messageId = None, data_error = Some ''quota''\<rparr>)))
       (newIOSSMSService (lit ''evie'') []) (mkMessage (lit ''5551234567'') (lit ''hello'')))"
  let ?c = "fst (sendSMS (androidAnswers (Some True) None (Inr (False, True, False)))
       (newAndroidSMSService Android) (mkMessage (lit ''5551234567'') (lit ''hello'')))"
  have a: "success ?r" by (simp add: android_eval string_eval)
  have b: "\<not> success ?r'" by (simp add: ios_eval string_eval)
  have c: "\<not> success ?c" "deliveryStatus ?c = CANCELLED"
    by (simp_all add: android_eval string_eval)
  from sendSMS_result_wellFormed [of _ _ _ _ _ "mkMessage (lit ''5551234567'') (lit ''hello'')"]
  have "wellFormed ?r" "wellFormed ?r'" "wellFormed ?c" by blast+
  with a b c show ?thesis by (auto simp: wellFormed_def split: option.splits)
qed

section \<open>Validation of the message body\<close>

lemma trim_whitespace:
  assumes "\<forall>c \<in> set b. isWhiteSpace c"
  shows "trim b = []"
proof -
  have d: "dropWhile isWhiteSpace b = []"
    using assms by simp
  show ?thesis unfolding trim_def d by simp
qed

lemma sendSMS_has_permission:
  assumes "platformOS env = Android" and "checkAnswer env = Some True"
  shows "\<exists>s1. fst (sendSMS env s msg) = fst (validateAndSend env s1 msg)
     \<and> snd (snd (sendSMS env s msg)) = [PermissionsCheck] @ snd (snd (validateAndSend env s1 msg))
     \<and> config s1 = config s"
proof -
  let ?s1 = "s\<lparr>permissionStatus :=
      \<lparr>hasPermission = True, canRequestPermission = False, isAvailable = True\<rparr>\<rparr>"
  have "sendSMS env s msg =
      (fst (validateAndSend env ?s1 msg), fst (snd (validateAndSend env ?s1 msg)),
       [PermissionsCheck] @ snd (snd (validateAndSend env ?s1 msg)))"
    using assms
    by (simp add: sendSMS_def checkSMSPermission_def Let_def split: prod.splits)
  then show ?thesis by (intro exI [of _ ?s1]) simp
qed

lemma sendSMS_granted_permission:
  assumes "platformOS env = Android" and "checkAnswer env = Some False"
    and "requestAnswer env = Some GRANTED"
  shows "\<exists>s1 t1. fst (sendSMS env s msg) = fst (validateAndSend env s1 msg)
     \<and> snd (snd (sendSMS env s msg)) = t1 @ snd (snd (validateAndSend env s1 msg))
     \<and> (\<forall>e \<in> set t1. \<not> isPlatformSend e) \<and> config s1 = config s"
proof -
  let ?s1 = "s\<lparr>permissionStatus :=
      \<lparr>hasPermission = True, canRequestPermission = True, isAvailable = True\<rparr>\<rparr>"
  let ?t1 = "[PermissionsCheck, PermissionsRequest] @ announceToScreenReader ?s1
      (lit ''SMS permission granted. Evie can now send messages automatically.'')"
  have "sendSMS env s msg =
      (fst (validateAndSend env ?s1 msg), fst (snd (validateAndSend env ?s1 msg)),
       ?t1 @ snd (snd (validateAndSend env ?s1 msg)))"
    using assms
    by (simp add: sendSMS_def checkSMSPermission_def requestSMSPermission_def Let_def
        split: prod.splits)
  moreover have "\<forall>e \<in> set ?t1. \<not> isPlatformSend e"
    by (simp add: announceToScreenReader_def)
  ultimately show ?thesis by (intro exI [of _ ?s1] exI [of _ ?t1]) simp
qed

lemma sendSMS_permitted:
  assumes "permissionObtained env"
  shows "\<exists>s1 t1. fst (sendSMS env s msg) = fst (validateAndSend env s1 msg)
     \<and> snd (snd (sendSMS env s msg)) = t1 @ snd (snd (validateAndSend env s1 msg))
     \<and> (\<forall>e \<in> set t1. \<not> isPlatformSend e) \<and> config s1 = config s"
proof -
  from assms consider
    (has) "platformOS env = Android" "checkAnswer env = Some True"
  | (granted) "platformOS env = Android" "checkAnswer env = Some False"
      "requestAnswer env = Some GRANTED"
    by (auto simp: permissionObtained_def)
  then show ?thesis
  proof cases
    case has
    from sendSMS_has_permission [OF has, of s msg] obtain s1 where
      "fst (sendSMS env s msg) = fst (validateAndSend env s1 msg)"
      "snd (snd (sendSMS env s msg)) = [PermissionsCheck] @ snd (snd (validateAndSend env s1 msg))"
      "config s1 = config s"
      by blast
    then show ?thesis by (intro exI [of _ s1] exI [of _ "[PermissionsCheck]"]) simp
  next
    case granted
    from sendSMS_granted_permission [OF granted] show ?thesis .
  qed
qed

text \<open>
  C5, as stated, at the recipient \<^verbatim>\<open>"123"\<close> and the empty body: on both platforms the
  error is \<^verbatim>\<open>INVALID_PHONE_NUMBER\<close>, since the recipient is validated before the body.
\<close>

theorem empty_body_counterexample:
  "map_option code (error (fst (sendSMS (androidAnswers (Some True) None (Inr (True, False, False)))
       (newAndroidSMSService Android) (mkMessage (lit ''123'') [])))) = Some ''INVALID_PHONE_NUMBER''
   \<and> map_option code (error (fst (sendSMS_ios
       (iosAnswers (Response 200 (Some
         \<lparr>data_success = True, data_messageId = None, data_error = None\<rparr>)))
       (newIOSSMSService (lit ''evie'') []) (mkMessage (lit ''123'') []))))
       = Some ''INVALID_PHONE_NUMBER''"
  by (simp add: android_eval ios_eval string_eval)

text \<open>
  C5 (amended): for every message whose body is empty or consists of white space only,
  \<^verbatim>\<open>sendSMS\<close> of either service returns a result with \<^verbatim>\<open>success = false\<close>; the error is
  \<^verbatim>\<open>EMPTY_MESSAGE\<close> whenever the checks made before the body is looked at pass: the
  platform and the permission (direct send) or the availability of the service (relay),
  and the validation of the recipient.
\<close>

theorem empty_body_rejected:
  assumes "\<forall>c \<in> set (body msg). isWhiteSpace c"
  shows "\<not> success (fst (sendSMS env s msg)) \<and> \<not> success (fst (sendSMS_ios env' s' msg))
    \<and> (permissionObtained env \<and> validatePhoneNumber (to msg) \<longrightarrow>
         map_option code (error (fst (sendSMS env s msg))) = Some ''EMPTY_MESSAGE'')
    \<and> (isAvailable_ios env' s' \<and> validatePhoneNumber_ios (to msg) \<longrightarrow>
         map_option code (error (fst (sendSMS_ios env' s' msg))) = Some ''EMPTY_MESSAGE'')"
proof -
  note tr = trim_whitespace [OF assms]
  have vas: "\<not> success (fst (validateAndSend e c msg))" for e c
    using tr by (simp add: validateAndSend_def failure_def)
  have vas_code: "map_option code (error (fst (validateAndSend e c msg))) = Some ''EMPTY_MESSAGE''"
    if "validatePhoneNumber (to msg)" for e c
    using tr that by (simp add: validateAndSend_def failure_def createError_def)
  have vas': "\<not> success r" if "validateAndSend e c msg = (r, c', u)" for e c r c' u
    using vas [of e c] that by simp
  have 1: "\<not> success (fst (sendSMS env s msg))"
    by (auto simp: sendSMS_def Let_def failure_def split: prod.splits dest!: vas')
  have 2: "\<not> success (fst (sendSMS_ios env' s' msg))"
    using tr by (simp add: sendSMS_ios_def failure_def)
  have 3: "map_option code (error (fst (sendSMS env s msg))) = Some ''EMPTY_MESSAGE''"
    if "permissionObtained env" "validatePhoneNumber (to msg)"
    using sendSMS_permitted [OF that(1), of s msg] vas_code [OF that(2)] by auto
  have 4: "map_option code (error (fst (sendSMS_ios env' s' msg))) = Some ''EMPTY_MESSAGE''"
    if "isAvailable_ios env' s'" "validatePhoneNumber_ios (to msg)"
    using tr that
    by (auto simp: sendSMS_ios_def isAvailable_ios_def failure_def createError_ios_def
        split: if_splits)
  from 1 2 3 4 show ?thesis by blast
qed

theorem empty_body_rejected_witness:
  "\<not> success (fst (sendSMS (androidAnswers (Some True) None (Inr (True, False, False)))
       (newAndroidSMSService Android) (mkMessage (lit ''5551234567'') (lit '' ''))))
   \<and> map_option code (error (fst (sendSMS (androidAnswers (Some True) None (Inr (True, False, False)))
       (newAndroidSMSService Android) (mkMessage (lit ''5551234567'') (lit '' '')))))
       = Some ''EMPTY_MESSAGE''
   \<and> \<not> success (fst (sendSMS_ios (iosAnswers (Response 200 None))
       (newIOSSMSService (lit ''evie'') []) (mkMessage (lit ''5551234567'') (lit '' ''))))
   \<and> map_option code (error (fst (sendSMS_ios (iosAnswers (Response 200 None))
       (newIOSSMSService (lit ''evie'') []) (mkMessage (lit ''5551234567'') (lit '' '')))))
       = Some ''EMPTY_MESSAGE''"
proof -
  let ?m = "mkMessage (lit ''5551234567'') (lit '' '')"
  let ?env = "androidAnswers (Some True) None (Inr (True, False, False))"
  let ?env' = "iosAnswers (Response 200 None)"
  let ?s' = "newIOSSMSService (lit ''evie'') []"
  have w: "\<forall>c \<in> set (body ?m). isWhiteSpace c"
    by (simp add: mkMessage_def lit_def isWhiteSpace_def)
  have p: "permissionObtained ?env"
    by (simp add: permissionObtained_def androidAnswers_def)
  have v: "validatePhoneNumber (to ?m)" "validatePhoneNumber_ios (to ?m)"
    by (simp_all add: validatePhoneNumber_def validatePhoneNumber_ios_def mkMessage_def
        string_eval)
  have a: "isAvailable_ios ?env' ?s'"
    by (simp add: isAvailable_ios_def iosAnswers_def newIOSSMSService_def lit_def)
  from empty_body_rejected [OF w, of ?env "newAndroidSMSService Android" ?env' ?s'] p v a
  show ?thesis by blast
qed

section \<open>Validation of the recipient\<close>

lemma validateAndSend_invalid:
  assumes "\<not> validatePhoneNumber (to msg)"
  shows "map_option code (error (fst (validateAndSend env s msg))) = Some ''INVALID_PHONE_NUMBER''"
    and "\<not> success (fst (validateAndSend env s msg))"
    and "errorIsRecoverable (fst (validateAndSend env s msg))"
    and "list_all (\<lambda>e. \<not> isPlatformSend e) (snd (snd (validateAndSend env s msg)))"
  using assms
  by (simp_all add: validateAndSend_def failure_def createError_def errorIsRecoverable_def
      announceToScreenReader_def)

lemma sendSMS_invalid:
  assumes "\<not> validatePhoneNumber (to msg)" and "permissionObtained env"
  shows "map_option code (error (fst (sendSMS env s msg))) = Some ''INVALID_PHONE_NUMBER''
    \<and> \<not> success (fst (sendSMS env s msg))
    \<and> errorIsRecoverable (fst (sendSMS env s msg))
    \<and> list_all (\<lambda>e. \<not> isPlatformSend e) (snd (snd (sendSMS env s msg)))"
proof -
  from sendSMS_permitted [OF assms(2), of s msg] obtain s1 t1 where
    a: "fst (sendSMS env s msg) = fst (validateAndSend env s1 msg)"
    and b: "snd (snd (sendSMS env s msg)) = t1 @ snd (snd (validateAndSend env s1 msg))"
    and c: "\<forall>e \<in> set t1. \<not> isPlatformSend e"
    by blast
  from c have "list_all (\<lambda>e. \<not> isPlatformSend e) t1" by (simp add: list_all_iff)
  with a b validateAndSend_invalid [OF assms(1), of env s1] show ?thesis by simp
qed

lemma sendSMSWithRetry_invalid_trace:
  assumes "\<not> validatePhoneNumber (to msg)" and "\<forall>j. permissionObtained (envs j)"
  shows "list_all (\<lambda>e. \<not> isPlatformSend e) (snd (snd (sendSMSWithRetry envs k s msg)))"
  using assms
proof (induction envs k s msg rule: sendSMSWithRetry.induct)
  case (1 envs k s msg)
  obtain r1 s1 t1 where first: "sendSMS (envs k) s msg = (r1, s1, t1)"
    by (cases "sendSMS (envs k) s msg") auto
  from "1.prems" have p: "permissionObtained (envs k)" by simp
  from sendSMS_invalid [OF "1.prems"(1) p, of s] first
  have t1: "list_all (\<lambda>e. \<not> isPlatformSend e) t1" by simp
  show ?case
  proof (cases "\<not> success r1 \<and> errorIsRecoverable r1 \<and> retryCount s1 < maxRetries (config s1)")
    case False
    from sendSMSWithRetry_stop [of envs k s msg r1 s1 t1, OF first False] t1
    show ?thesis by simp
  next
    case True
    define s2 where "s2 = s1\<lparr>retryCount := retryCount s1 + 1\<rparr>"
    obtain r3 s3 t3 where rest: "sendSMSWithRetry envs (Suc k) s2 msg = (r3, s3, t3)"
      by (cases "sendSMSWithRetry envs (Suc k) s2 msg") auto
    from True have f: "\<not> success r1" "errorIsRecoverable r1"
      "retryCount s1 < maxRetries (config s1)"
      by simp_all
    have "list_all (\<lambda>e. \<not> isPlatformSend e)
            (snd (snd (sendSMSWithRetry envs (Suc k) s2 msg)))"
      using "1.IH" [OF first [symmetric] refl refl True s2_def "1.prems"] .
    with rest have t3: "list_all (\<lambda>e. \<not> isPlatformSend e) t3" by simp
    from sendSMSWithRetry_retry [of envs k s msg r1 s1 t1, OF first f rest [unfolded s2_def]]
      t1 t3
    show ?thesis by simp
  qed
qed

text \<open>
  C4, as stated, at the recipient \<^verbatim>\<open>"123"\<close>: with the permission held, the error of
  \<^verbatim>\<open>sendSMS\<close> is \<^verbatim>\<open>INVALID_PHONE_NUMBER\<close> and it is marked recoverable, so
  \<^verbatim>\<open>sendSMSWithRetry\<close> of a new service retries three times; and when the permission is
  refused, the error is \<^verbatim>\<open>PERMISSION_DENIED\<close>, since the permission is checked first.
\<close>

theorem invalid_recipient_counterexample:
  "map_option code (error (fst (sendSMS (androidAnswers (Some True) None (Inr (True, False, False)))
       (newAndroidSMSService Android) (mkMessage (lit ''123'') (lit ''hello'')))))
     = Some ''INVALID_PHONE_NUMBER''
   \<and> map_option isRecoverable (error (fst (sendSMS
       (androidAnswers (Some True) None (Inr (True, False, False)))
       (newAndroidSMSService Android) (mkMessage (lit ''123'') (lit ''hello''))))) = Some True
   \<and> retries (snd (snd (sendSMSWithRetry
       (\<lambda>k. androidAnswers (Some True) None (Inr (True, False, False))) 0
       (newAndroidSMSService Android) (mkMessage (lit ''123'') (lit ''hello''))))) = 3
   \<and> map_option code (error (fst (sendSMS
       (androidAnswers (Some False) (Some DENIED) (Inr (True, False, False)))
       (newAndroidSMSService Android) (mkMessage (lit ''123'') (lit ''hello'')))))
     = Some ''PERMISSION_DENIED''"
  by (simp add: android_eval string_eval retries_def)

text \<open>
  C4 (amended): for every recipient whose digits, after stripping everything else, number
  fewer than 10 or more than 15, and any body, when the direct-send service holds the
  permission, \<^verbatim>\<open>sendSMS\<close> fails with \<^verbatim>\<open>INVALID_PHONE_NUMBER\<close> and makes no platform send
  call. The error is marked recoverable: \<^verbatim>\<open>sendSMSWithRetry\<close>, from a retry counter of zero,
  repeats the call \<^verbatim>\<open>maxRetries\<close> times, returns the same failure, and still makes no platform
  send call.
\<close>

theorem invalid_recipient_rejected:
  assumes "length (stripNonDigits (to msg)) < 10 \<or> 15 < length (stripNonDigits (to msg))"
    and "\<forall>k. permissionObtained (envs k)"
    and "retryCount s = 0" and "0 \<le> maxRetries (config s)"
  shows "map_option code (error (fst (sendSMS (envs 0) s msg))) = Some ''INVALID_PHONE_NUMBER''
    \<and> \<not> success (fst (sendSMS (envs 0) s msg))
    \<and> errorIsRecoverable (fst (sendSMS (envs 0) s msg))
    \<and> list_all (\<lambda>e. \<not> isPlatformSend e) (snd (snd (sendSMS (envs 0) s msg)))
    \<and> map_option code (error (fst (sendSMSWithRetry envs 0 s msg))) = Some ''INVALID_PHONE_NUMBER''
    \<and> \<not> success (fst (sendSMSWithRetry envs 0 s msg))
    \<and> int (retries (snd (snd (sendSMSWithRetry envs 0 s msg)))) = maxRetries (config s)
    \<and> list_all (\<lambda>e. \<not> isPlatformSend e) (snd (snd (sendSMSWithRetry envs 0 s msg)))"
proof -
  from assms(1) have inv: "\<not> validatePhoneNumber (to msg)"
    by (auto simp: validatePhoneNumber_def)
  from assms(2) have p: "permissionObtained (envs j)" for j by simp
  obtain r s' t where run: "sendSMSWithRetry envs 0 s msg = (r, s', t)"
    by (cases "sendSMSWithRetry envs 0 s msg") auto
  from assms have le: "retryCount s \<le> maxRetries (config s)" by simp
  from sendSMSWithRetry_policy [OF le run] assms(3)
  have pol: "retriedUpTo (maxRetries (config s)) (retryDelay (config s))
      (resultOfAttempt envs msg 0 s) r t"
    by simp
  then have last: "r = resultOfAttempt envs msg 0 s (retries t)"
    by (simp add: retriedUpTo_def)
  have each: "map_option code (error (resultOfAttempt envs msg 0 s j)) = Some ''INVALID_PHONE_NUMBER''
      \<and> \<not> success (resultOfAttempt envs msg 0 s j)
      \<and> errorIsRecoverable (resultOfAttempt envs msg 0 s j)" for j
    unfolding resultOfAttempt_def using sendSMS_invalid [OF inv p] by simp
  from pol each [of "retries t"] last
  have n: "int (retries t) = maxRetries (config s)"
    by (simp add: retriedUpTo_def)
  from sendSMS_invalid [OF inv p, of 0 s] each [of "retries t"] last n run
    sendSMSWithRetry_invalid_trace [OF inv assms(2), of 0 s]
  show ?thesis by simp
qed

theorem invalid_recipient_rejected_witness:
  "map_option code (error (fst (sendSMSWithRetry
       (\<lambda>k. androidAnswers (Some False) (Some GRANTED) (Inr (True, False, False))) 0
       (newAndroidSMSService Android) (mkMessage (lit ''123'') (lit ''hello'')))))
     = Some ''INVALID_PHONE_NUMBER''
   \<and> \<not> success (fst (sendSMSWithRetry
       (\<lambda>k. androidAnswers (Some False) (Some GRANTED) (Inr (True, False, False))) 0
       (newAndroidSMSService Android) (mkMessage (lit ''123'') (lit ''hello''))))
   \<and> int (retries (snd (snd (sendSMSWithRetry
       (\<lambda>k. androidAnswers (Some False) (Some GRANTED) (Inr (True, False, False))) 0
       (newAndroidSMSService Android) (mkMessage (lit ''123'') (lit ''hello'')))))) = 3
   \<and> list_all (\<lambda>e. \<not> isPlatformSend e) (snd (snd (sendSMSWithRetry
       (\<lambda>k. androidAnswers (Some False) (Some GRANTED) (Inr (True, False, False))) 0
       (newAndroidSMSService Android) (mkMessage (lit ''123'') (lit ''hello'')))))"
proof -
  let ?envs = "\<lambda>k::nat. androidAnswers (Some False) (Some GRANTED) (Inr (True, False, False))"
  let ?s = "newAndroidSMSService Android"
  let ?m = "mkMessage (lit ''123'') (lit ''hello'')"
  have a: "length (stripNonDigits (to ?m)) < 10 \<or> 15 < length (stripNonDigits (to ?m))"
    by (simp add: mkMessage_def string_eval)
  have b: "\<forall>k. permissionObtained (?envs k)"
    by (simp add: permissionObtained_def androidAnswers_def)
  have c: "retryCount ?s = 0" "0 \<le> maxRetries (config ?s)" "maxRetries (config ?s) = 3"
    by (simp_all add: newAndroidSMSService_def defaultConfig_def)
  from invalid_recipient_rejected [OF a b c(1,2)] c(3) show ?thesis by simp
qed

lemmas voice_eval = start_def startManager_def initialize_def createManager_def
  requestMicrophonePermission_def stop_def attemptRecovery_def handlePorcupineError_def
  handleKeywordDetection_def resetToListening_def caught_def emit_def setState_def
  createError_v_def initError_def startError_def on_def newVoiceService_def
  sunshineConfig_def hookedVoiceService_def voiceAnswers_def Let_def lit_def

lemma listeningVoiceService_eq:
  "listeningVoiceService =
     \<lparr>porcupineManager = Some Handle, currentState = LISTENING, config_v = sunshineConfig,
      isInitialized = True, permissionGranted = True, retryCount_v = 0, maxRetries_v = 3,
      listeners = [''error'', ''permission_denied'', ''listening_stopped'',
        ''listening_started'', ''keyword_detected'']\<rparr>"
  by (simp add: listeningVoiceService_def voice_eval)

section \<open>Starting the listener\<close>

lemma caught_not_true: "caught s t e after \<noteq> (Returned True, s1, t1)"
  by (auto simp: caught_def split: prod.splits outcome.splits)

lemma startManager_true:
  "startManager env s t = (Returned True, s1, t1) \<Longrightarrow>
     currentState s1 = LISTENING \<and> isInitialized s1 = isInitialized s"
  by (auto simp: startManager_def setState_def Let_def caught_not_true
      split: if_splits answer.splits)

lemma createManager_true:
  "createManager env s t = (Returned True, s1, t1) \<Longrightarrow> isInitialized s1"
  by (auto simp: createManager_def setState_def Let_def caught_not_true
      split: if_splits answer.splits)

lemma initialize_true:
  "initialize env s = (Returned True, s1, t1) \<Longrightarrow> isInitialized s1"
  by (auto simp: initialize_def Let_def caught_not_true
      split: if_splits prod.splits outcome.splits dest: createManager_true)

lemma start_true:
  "start env s = (Returned True, s1, t1) \<Longrightarrow> currentState s1 = LISTENING \<and> isInitialized s1"
  by (auto simp: start_def caught_not_true split: if_splits prod.splits outcome.splits
      dest: initialize_true startManager_true)

lemma start_while_listening:
  "isInitialized s \<Longrightarrow> currentState s = LISTENING \<Longrightarrow> start env s = (Returned True, s, [])"
  by (simp add: start_def startManager_def)

lemma caught_managed:
  assumes "managed s" and "caught s t e after = (out, s', t')"
    and "after = (\<lambda>s. s) \<or> after = (\<lambda>s. setState s ERROR)"
  shows "managed s'"
  using assms
  by (auto simp: caught_def managed_def setState_def emit_def split: if_splits)

lemma requestMicrophonePermission_managed:
  assumes "managed s" and "requestMicrophonePermission env s = (out, s', t)"
  shows "managed s'"
  using assms
  by (auto simp: requestMicrophonePermission_def Let_def managed_def setState_def
      caught_def emit_def split: if_splits sum.splits)

lemma createManager_managed:
  assumes "managed s" and "createManager env s t0 = (out, s', t)"
  shows "managed s'"
  using assms
  by (auto simp: createManager_def Let_def managed_def setState_def
      caught_def emit_def split: if_splits answer.splits)

lemma setState_managed:
  "managed s \<Longrightarrow> st \<noteq> LISTENING \<Longrightarrow> st \<noteq> PROCESSING \<Longrightarrow> managed (setState s st)"
  by (simp add: managed_def setState_def)

lemma initialize_managed:
  assumes "managed s" and "initialize env s = (out, s', t)"
  shows "managed s'"
proof -
  have m0: "managed (setState s INITIALIZING)"
    using assms(1) by (simp add: setState_managed)
  show ?thesis
  proof (cases "permissionGranted (setState s INITIALIZING)")
    case True
    with assms(2) createManager_managed [OF m0] show ?thesis
      by (simp add: initialize_def Let_def)
  next
    case False
    obtain o1 s1 t1 where r: "requestMicrophonePermission env (setState s INITIALIZING) = (o1, s1, t1)"
      by (cases "requestMicrophonePermission env (setState s INITIALIZING)") auto
    note m1 = requestMicrophonePermission_managed [OF m0 r]
    from False r assms(2) m1 createManager_managed [OF m1] caught_managed [OF m1]
    show ?thesis
      by (auto simp: initialize_def Let_def split: outcome.splits if_splits)
  qed
qed

lemma startManager_managed:
  assumes "managed s" and "isInitialized s" and "startManager env s t0 = (out, s', t)"
  shows "managed s'"
  using assms
  by (auto simp: startManager_def Let_def managed_def setState_def
      caught_def emit_def split: if_splits answer.splits)

lemma start_managed:
  assumes "managed s" and "start env s = (out, s', t)"
  shows "managed s'"
proof (cases "isInitialized s")
  case True
  with assms startManager_managed [OF assms(1) True] show ?thesis
    by (simp add: start_def)
next
  case False
  obtain o1 s1 t1 where i: "initialize env s = (o1, s1, t1)"
    by (cases "initialize env s") auto
  note m1 = initialize_managed [OF assms(1) i]
  show ?thesis
  proof (cases o1)
    case (Threw m)
    with False i assms(2) caught_managed [OF m1] show ?thesis
      by (auto simp: start_def)
  next
    case (Returned b)
    show ?thesis
    proof (cases b)
      case False
      with \<open>\<not> isInitialized s\<close> i Returned assms(2) m1 show ?thesis
        by (simp add: start_def)
    next
      case True
      with i Returned have "isInitialized s1" by (auto dest: initialize_true)
      from startManager_managed [OF m1 this] \<open>\<not> isInitialized s\<close> i Returned True assms(2)
      show ?thesis by (simp add: start_def)
    qed
  qed
qed

lemma stop_managed:
  assumes "managed s" and "stop env s = (out, s', t)"
  shows "managed s'"
  using assms
  by (auto simp: stop_def Let_def managed_def setState_def caught_def emit_def
      split: if_splits answer.splits)

lemma cleanup_managed:
  assumes "managed s" and "cleanup env s = (s', t)"
  shows "managed s'"
proof (cases "porcupineManager s \<noteq> None")
  case False
  with assms show ?thesis by (auto simp: cleanup_def managed_def setState_def)
next
  case True
  obtain o1 s1 t1 where st: "stop env s = (o1, s1, t1)"
    by (cases "stop env s") auto
  note m1 = stop_managed [OF assms(1) st]
  from True st assms(2) m1 show ?thesis
    by (auto simp: cleanup_def managed_def setState_def
        split: outcome.splits answer.splits)
qed

lemma attemptRecovery_managed:
  assumes "managed s" and "attemptRecovery env s = (out, s', t)"
  shows "managed s'"
proof (cases "retryCount_v s \<ge> maxRetries_v s")
  case True
  with assms show ?thesis by (auto simp: attemptRecovery_def split: prod.splits)
next
  case False
  let ?s0 = "s\<lparr>retryCount_v := retryCount_v s + 1\<rparr>"
  have m0: "managed ?s0" using assms(1) by (simp add: managed_def)
  obtain o1 s1 t1 where st: "stop env ?s0 = (o1, s1, t1)"
    by (cases "stop env ?s0") auto
  note m1 = stop_managed [OF m0 st]
  obtain o2 s2 t2 where sa: "start env s1 = (o2, s2, t2)"
    by (cases "start env s1") auto
  note m2 = start_managed [OF m1 sa]
  have m3: "managed (s2\<lparr>retryCount_v := 0\<rparr>)" using m2 by (simp add: managed_def)
  from False st sa assms(2) m1 m2 m3 show ?thesis
    by (auto simp: attemptRecovery_def Let_def split: outcome.splits)
qed

lemma handlePorcupineError_managed:
  assumes "managed s" and "handlePorcupineError env s err = (out, s', t)"
  shows "managed s'"
proof -
  have m0: "managed (setState s ERROR)"
    using assms(1) by (simp add: setState_managed)
  obtain o1 s1 t1 where a: "attemptRecovery env (setState s ERROR) = (o1, s1, t1)"
    by (cases "attemptRecovery env (setState s ERROR)") auto
  from attemptRecovery_managed [OF m0 a] a assms show ?thesis
    by (auto simp: handlePorcupineError_def split: prod.splits outcome.splits)
qed

lemma reachable_managed: "reachable s \<Longrightarrow> managed s"
proof (induction rule: reachable.induct)
  case (constructed cfg)
  then show ?case by (simp add: managed_def newVoiceService_def)
next
  case (listener s ev)
  then show ?case by (simp add: managed_def on_def)
next
  case (detected s k s' t)
  then show ?case
    by (auto simp: handleKeywordDetection_def Let_def managed_def setState_def)
next
  case (reset s)
  then show ?case by (simp add: resetToListening_def managed_def setState_def)
next
  case (tuned s v)
  then show ?case by (simp add: updateSensitivity_def managed_def)
qed (blast intro: requestMicrophonePermission_managed initialize_managed start_managed
    stop_managed cleanup_managed handlePorcupineError_managed attemptRecovery_managed)+

text \<open>
  C7: \<^verbatim>\<open>start()\<close> is idempotent. In every state the listener can reach in which it is
  \<^verbatim>\<open>LISTENING\<close>, a call of \<^verbatim>\<open>start()\<close> returns \<^verbatim>\<open>true\<close>, leaves every field as it was and
  calls nothing: no event, no \<^verbatim>\<open>PorcupineManager.create\<close>, no \<^verbatim>\<open>start\<close> of the manager. Every
  call of \<^verbatim>\<open>start()\<close> that returned \<^verbatim>\<open>true\<close>, from any state, leaves such a state, so a
  second call right after it, whatever the libraries would answer, is this no-op.
\<close>

theorem start_idempotent:
  "(reachable s \<and> currentState s = LISTENING \<longrightarrow> start env s = (Returned True, s, []))
   \<and> (start env s = (Returned True, s1, t1) \<longrightarrow> start env' s1 = (Returned True, s1, []))"
proof -
  have "isInitialized s" if "reachable s" "currentState s = LISTENING"
    using reachable_managed [OF that(1)] that(2) by (simp add: managed_def)
  then show ?thesis
    using start_true [of env s s1 t1] start_while_listening by blast
qed

theorem start_idempotent_witness:
  "start (voiceAnswers Resolves Resolves) hookedVoiceService
     = (Returned True, listeningVoiceService,
        [RequestMicrophone, CreateManager (lit ''sunshine'') (1 / 2), StartManager,
         Emit ''listening_started'' NoData])
   \<and> start (voiceAnswers (Rejects ''busy'') Resolves) listeningVoiceService
     = (Returned True, listeningVoiceService, [])
   \<and> start (voiceAnswers Resolves Resolves)
       (resetToListening (fst (handleKeywordDetection listeningVoiceService 0)))
     = (Returned True, resetToListening (fst (handleKeywordDetection listeningVoiceService 0)),
        [])"
proof -
  have a: "start (voiceAnswers Resolves Resolves) hookedVoiceService
     = (Returned True, listeningVoiceService,
        [RequestMicrophone, CreateManager (lit ''sunshine'') (1 / 2), StartManager,
         Emit ''listening_started'' NoData])"
    unfolding listeningVoiceService_eq by (simp add: voice_eval)
  have "reachable hookedVoiceService"
    unfolding hookedVoiceService_def by (intro reachable.listener reachable.constructed)
  from reachable.started [OF this a]
  have r: "reachable listeningVoiceService" .
  have m: "porcupineManager listeningVoiceService \<noteq> None"
    unfolding listeningVoiceService_eq by simp
  have d: "handleKeywordDetection listeningVoiceService 0
      = (fst (handleKeywordDetection listeningVoiceService 0),
         snd (handleKeywordDetection listeningVoiceService 0))"
    by simp
  have r': "reachable (resetToListening (fst (handleKeywordDetection listeningVoiceService 0)))"
    by (rule reachable.reset [OF reachable.detected [OF r m d]])
  have l: "currentState (resetToListening (fst (handleKeywordDetection listeningVoiceService 0)))
      = LISTENING"
    by (simp add: resetToListening_def handleKeywordDetection_def setState_def Let_def)
  from start_idempotent [of hookedVoiceService "voiceAnswers Resolves Resolves"
      listeningVoiceService _ "voiceAnswers (Rejects ''busy'') Resolves"] a
    start_idempotent [of "resetToListening (fst (handleKeywordDetection listeningVoiceService 0))"
      "voiceAnswers Resolves Resolves"] r' l
  show ?thesis by simp
qed

section \<open>Keyword detection\<close>

text \<open>
  C8, as stated, at a second detection within the second that follows a first one: after
  the first callback the state is \<^verbatim>\<open>PROCESSING\<close>, and the second callback emits its
  \<^verbatim>\<open>keyword_detected\<close> event in that state.
\<close>

theorem detection_while_processing_counterexample:
  "currentState (fst (handleKeywordDetection listeningVoiceService 0)) = PROCESSING
   \<and> currentState (fst (handleKeywordDetection listeningVoiceService 0)) \<noteq> LISTENING
   \<and> snd (handleKeywordDetection (fst (handleKeywordDetection listeningVoiceService 0)) 0)
     = [Emit ''keyword_detected'' (KeywordData (lit ''sunshine'') 0 (1 / 2)),
        SetTimeout 1000 ResetToListening]"
  unfolding listeningVoiceService_eq by (simp add: voice_eval)

text \<open>
  C8 (amended): on each keyword-detection callback, in whatever state the listener is (the
  callback does not look at the state), the state becomes \<^verbatim>\<open>PROCESSING\<close>, the detection
  event is handed to the listeners of \<^verbatim>\<open>keyword_detected\<close> and a timer of 1000 milliseconds
  is set; when a timer fires, the state goes back to \<^verbatim>\<open>LISTENING\<close> if and only if it is
  \<^verbatim>\<open>PROCESSING\<close> at that moment, and is left as it is otherwise.
\<close>

theorem detection_then_reset:
  "currentState (fst (handleKeywordDetection s k)) = PROCESSING
   \<and> (''keyword_detected'' \<in> set (listeners s) \<longrightarrow>
        snd (handleKeywordDetection s k)
          = [Emit ''keyword_detected''
               (KeywordData (keyword (config_v s)) k (sensitivity (config_v s))),
             SetTimeout 1000 ResetToListening])
   \<and> (currentState s' = PROCESSING \<longrightarrow> currentState (resetToListening s') = LISTENING)
   \<and> (currentState s' \<noteq> PROCESSING \<longrightarrow> resetToListening s' = s')"
  by (simp add: handleKeywordDetection_def resetToListening_def setState_def emit_def Let_def)

theorem detection_then_reset_witness:
  "currentState (fst (handleKeywordDetection listeningVoiceService 0)) = PROCESSING
   \<and> snd (handleKeywordDetection listeningVoiceService 0)
     = [Emit ''keyword_detected'' (KeywordData (lit ''sunshine'') 0 (1 / 2)),
        SetTimeout 1000 ResetToListening]
   \<and> currentState (resetToListening (fst (handleKeywordDetection listeningVoiceService 0)))
     = LISTENING
   \<and> resetToListening (setState (fst (handleKeywordDetection listeningVoiceService 0)) IDLE)
     = setState (fst (handleKeywordDetection listeningVoiceService 0)) IDLE"
proof -
  have l: "''keyword_detected'' \<in> set (listeners listeningVoiceService)"
    "keyword (config_v listeningVoiceService) = lit ''sunshine''"
    "sensitivity (config_v listeningVoiceService) = 1 / 2"
    unfolding listeningVoiceService_eq by (simp_all add: sunshineConfig_def)
  have p: "currentState (fst (handleKeywordDetection listeningVoiceService 0)) = PROCESSING"
    "currentState (setState (fst (handleKeywordDetection listeningVoiceService 0)) IDLE)
       \<noteq> PROCESSING"
    by (simp_all add: handleKeywordDetection_def setState_def Let_def)
  from detection_then_reset [of listeningVoiceService 0
      "fst (handleKeywordDetection listeningVoiceService 0)"]
    detection_then_reset [of listeningVoiceService 0
      "setState (fst (handleKeywordDetection listeningVoiceService 0)) IDLE"] l p
  show ?thesis by simp
qed

section \<open>Recovery after a classifier error\<close>

lemma quiet_simps [simp]:
  "quiet []" "quiet (t @ u) = (quiet t \<and> quiet u)"
  "quiet (e # t) = (e \<noteq> Wait 2000 \<and> \<not> isRecoveryFailed e
                \<and> e \<noteq> SetTimeout 3000 RetryRecovery \<and> quiet t)"
  by (auto simp: quiet_def)

lemma heardE:
  assumes "heard r s"
  obtains b s1 t1 where "r = (Returned b, s1, t1)" "sameCounters s1 s" "quiet t1"
  using assms by (auto simp: heard_def split: prod.splits outcome.splits)

lemma heard_Returned [simp]:
  "heard (Returned b, s1, t1) s = (sameCounters s1 s \<and> quiet t1)"
  by (simp add: heard_def)

lemma sameCounters_refl [simp]: "sameCounters s s"
  by (simp add: sameCounters_def)

lemma sameCounters_setState [simp]: "sameCounters (setState s st) s"
  by (simp add: sameCounters_def setState_def)

lemma sameCounters_listener:
  "sameCounters s1 s \<Longrightarrow> ''error'' \<in> set (listeners s) \<Longrightarrow> ''error'' \<in> set (listeners s1)"
  by (simp add: sameCounters_def)

lemma heard_trans: "heard r s1 \<Longrightarrow> sameCounters s1 s \<Longrightarrow> heard r s"
  by (auto simp: heard_def sameCounters_def split: prod.splits outcome.splits)

lemma caught_heard:
  assumes "''error'' \<in> set (listeners s)" and "code_v e \<noteq> ''RECOVERY_FAILED''"
    and "\<And>c. sameCounters (after c) c" and "quiet t"
  shows "heard (caught s t e after) s"
  using assms by (simp add: caught_def emit_def)

lemma error_codes [simp]:
  "code_v (initError env m) \<noteq> ''RECOVERY_FAILED''"
  "code_v (startError env m) \<noteq> ''RECOVERY_FAILED''"
  by (simp_all add: initError_def startError_def createError_v_def)

lemma stop_heard:
  assumes "''error'' \<in> set (listeners s)"
  shows "heard (stop env s) s"
  using assms
  by (auto simp: stop_def emit_def Let_def createError_v_def
      intro!: caught_heard split: answer.splits)

lemma requestMicrophonePermission_heard:
  assumes "''error'' \<in> set (listeners s)"
  shows "heard (requestMicrophonePermission env s) s"
  using assms
  by (auto simp: requestMicrophonePermission_def emit_def Let_def createError_v_def
      sameCounters_def setState_def
      intro!: caught_heard split: sum.splits)

lemma createManager_heard:
  assumes "''error'' \<in> set (listeners s)" and "quiet t"
  shows "heard (createManager env s t) s"
  using assms
  by (auto simp: createManager_def Let_def sameCounters_def setState_def
      intro!: caught_heard split: answer.splits)

lemma initialize_heard:
  assumes "''error'' \<in> set (listeners s)"
  shows "heard (initialize env s) s"
proof -
  let ?s0 = "setState s INITIALIZING"
  have l0: "''error'' \<in> set (listeners ?s0)"
    using assms by (simp add: setState_def)
  show ?thesis
  proof (cases "permissionGranted ?s0")
    case True
    with heard_trans [OF createManager_heard [OF l0, of "[]" env]] show ?thesis
      by (simp add: initialize_def Let_def)
  next
    case False
    from requestMicrophonePermission_heard [OF l0, of env] obtain b s1 t1 where
      r: "requestMicrophonePermission env ?s0 = (Returned b, s1, t1)"
        "sameCounters s1 ?s0" "quiet t1"
      by (rule heardE)
    have s1: "sameCounters s1 s"
      using r(2) by (simp add: sameCounters_def setState_def)
    have l1: "''error'' \<in> set (listeners s1)"
      by (rule sameCounters_listener [OF s1 assms])
    from heard_trans [OF createManager_heard [OF l1 r(3), of env] s1] False r s1
    show ?thesis by (simp add: initialize_def Let_def)
  qed
qed

lemma startManager_heard:
  assumes "''error'' \<in> set (listeners s)" and "quiet t"
  shows "heard (startManager env s t) s"
  using assms
  by (auto simp: startManager_def Let_def emit_def sameCounters_def setState_def
      intro!: caught_heard split: answer.splits)

lemma start_heard:
  assumes "''error'' \<in> set (listeners s)"
  shows "heard (start env s) s"
proof (cases "isInitialized s")
  case True
  with startManager_heard [OF assms, of "[]" env] show ?thesis
    by (simp add: start_def)
next
  case False
  from initialize_heard [OF assms, of env] obtain b s1 t1 where
    i: "initialize env s = (Returned b, s1, t1)" "sameCounters s1 s" "quiet t1"
    by (rule heardE)
  have l1: "''error'' \<in> set (listeners s1)"
    by (rule sameCounters_listener [OF i(2) assms])
  from heard_trans [OF startManager_heard [OF l1 i(3), of env] i(2)] False i
  show ?thesis by (simp add: start_def)
qed

text \<open>
  With a listener for \<^verbatim>\<open>error\<close> events, \<^verbatim>\<open>stop()\<close> and \<^verbatim>\<open>start()\<close> return, whatever the
  libraries answer; the \<^verbatim>\<open>catch\<close> block of \<^verbatim>\<open>attemptRecovery\<close> is not reached, and the
  counter is back at zero after every attempt, failed or not.
\<close>

lemma attemptRecovery_heard:
  assumes "''error'' \<in> set (listeners s)" and "retryCount_v s < maxRetries_v s"
  shows "\<exists>s1 t1. attemptRecovery env s = (Returned (), s1, t1)
           \<and> retryCount_v s1 = 0 \<and> maxRetries_v s1 = maxRetries_v s
           \<and> listeners s1 = listeners s
           \<and> recoveryCycles t1 = 1 \<and> \<not> list_ex isRecoveryFailed t1
           \<and> SetTimeout 3000 RetryRecovery \<notin> set t1"
proof -
  let ?s0 = "s\<lparr>retryCount_v := retryCount_v s + 1\<rparr>"
  have l0: "''error'' \<in> set (listeners ?s0)" using assms by simp
  from stop_heard [OF l0, of env] obtain b1 s1 t1 where
    st: "stop env ?s0 = (Returned b1, s1, t1)" "sameCounters s1 ?s0" "quiet t1"
    by (rule heardE)
  then have l1: "''error'' \<in> set (listeners s1)"
    using l0 by (simp add: sameCounters_def)
  from start_heard [OF l1, of env] obtain b2 s2 t2 where
    sa: "start env s1 = (Returned b2, s2, t2)" "sameCounters s2 s1" "quiet t2"
    by (rule heardE)
  have q: "filter (\<lambda>e. e = Wait 2000) u = [] \<and> \<not> list_ex isRecoveryFailed u
           \<and> SetTimeout 3000 RetryRecovery \<notin> set u" if "quiet u" for u
    using that by (auto simp: quiet_def filter_empty_conv list_ex_iff)
  from assms st sa q [OF st(3)] q [OF sa(3)] show ?thesis
    by (auto simp: attemptRecovery_def Let_def sameCounters_def recoveryCycles_def)
qed

lemma handlePorcupineError_heard:
  assumes "''error'' \<in> set (listeners s)" and "retryCount_v s < maxRetries_v s"
  shows "\<exists>s1 t1. handlePorcupineError env s err = (Returned (), s1, t1)
           \<and> retryCount_v s1 = 0 \<and> maxRetries_v s1 = maxRetries_v s
           \<and> listeners s1 = listeners s
           \<and> recoveryCycles t1 = 1 \<and> \<not> list_ex isRecoveryFailed t1"
proof -
  let ?s0 = "setState s ERROR"
  have "''error'' \<in> set (listeners ?s0)" "retryCount_v ?s0 < maxRetries_v ?s0"
    using assms by (simp_all add: setState_def)
  from attemptRecovery_heard [OF this, of env] assms(1) show ?thesis
    by (auto simp: handlePorcupineError_def emit_def setState_def recoveryCycles_def
        createError_v_def)
qed

text \<open>
  Every classifier error of a sequence gets its recovery cycle, however many of the
  recoveries before it failed, and the terminal error is never emitted.
\<close>

lemma classifierErrors_heard:
  assumes "''error'' \<in> set (listeners s)" and "retryCount_v s = 0" and "0 < maxRetries_v s"
  shows "recoveryCycles (snd (classifierErrors es s)) = length es
         \<and> \<not> list_ex isRecoveryFailed (snd (classifierErrors es s))
         \<and> retryCount_v (fst (classifierErrors es s)) = 0"
  using assms
proof (induction es arbitrary: s)
  case Nil
  then show ?case by (simp add: recoveryCycles_def)
next
  case (Cons e es)
  obtain err env where e: "e = (err, env)" by (cases e)
  from Cons.prems have lt: "retryCount_v s < maxRetries_v s" by simp
  from handlePorcupineError_heard [OF Cons.prems(1) lt, of env err] obtain s1 t1 where
    h: "handlePorcupineError env s err = (Returned (), s1, t1)" "retryCount_v s1 = 0"
      "maxRetries_v s1 = maxRetries_v s" "listeners s1 = listeners s"
      "recoveryCycles t1 = 1" "\<not> list_ex isRecoveryFailed t1"
    by auto
  have "recoveryCycles (snd (classifierErrors es s1)) = length es
         \<and> \<not> list_ex isRecoveryFailed (snd (classifierErrors es s1))
         \<and> retryCount_v (fst (classifierErrors es s1)) = 0"
    using Cons.IH [of s1] h Cons.prems by simp
  with h e show ?case
    by (auto simp: recoveryCycles_def split: prod.splits)
qed

text \<open>
  C2 at a failing input: a listening service (with the listeners the hook registers) gets a
  classifier error, and in the recovery the manager's \<^verbatim>\<open>stop\<close> and \<^verbatim>\<open>start\<close> both reject.
  \<^verbatim>\<open>stop()\<close> and \<^verbatim>\<open>start()\<close> catch the rejections and return \<^verbatim>\<open>false\<close>, so the line after
  them runs: the listener is left in \<^verbatim>\<open>ERROR\<close>, not \<^verbatim>\<open>LISTENING\<close>, with its retry counter
  set to zero and no further attempt scheduled.
\<close>

theorem attemptRecovery_resets_after_failure:
  "fst (start (voiceAnswers (Rejects ''busy'') (Rejects ''busy''))
         ((setState listeningVoiceService ERROR)\<lparr>retryCount_v := 1\<rparr>)) = Returned False
   \<and> fst (attemptRecovery (voiceAnswers (Rejects ''busy'') (Rejects ''busy''))
         (setState listeningVoiceService ERROR)) = Returned ()
   \<and> currentState (fst (snd (attemptRecovery (voiceAnswers (Rejects ''busy'') (Rejects ''busy''))
         (setState listeningVoiceService ERROR)))) = ERROR
   \<and> retryCount_v (fst (snd (attemptRecovery (voiceAnswers (Rejects ''busy'') (Rejects ''busy''))
         (setState listeningVoiceService ERROR)))) = 0
   \<and> recoveryCycles (snd (snd (attemptRecovery
         (voiceAnswers (Rejects ''busy'') (Rejects ''busy''))
         (setState listeningVoiceService ERROR)))) = 1
   \<and> SetTimeout 3000 RetryRecovery \<notin> set (snd (snd (attemptRecovery
         (voiceAnswers (Rejects ''busy'') (Rejects ''busy''))
         (setState listeningVoiceService ERROR))))"
  unfolding listeningVoiceService_eq by (simp add: voice_eval recoveryCycles_def)

text \<open>
  The \<^verbatim>\<open>catch\<close> block of \<^verbatim>\<open>attemptRecovery\<close> is reached when no listener hears the
  \<^verbatim>\<open>error\<close> event of the failing \<^verbatim>\<open>start()\<close>: the emitter throws, the counter keeps its
  increment and the retry timer is set.
\<close>

lemma attemptRecovery_unheard:
  "attemptRecovery (voiceAnswers (Rejects ''busy'') Resolves)
     ((setState listeningVoiceService ERROR)\<lparr>listeners := []\<rparr>)
   = (Returned (),
      (setState listeningVoiceService IDLE)\<lparr>listeners := [], retryCount_v := 1\<rparr>,
      [StopManager, Wait 2000, StartManager, SetTimeout 3000 RetryRecovery])"
  unfolding listeningVoiceService_eq by (simp add: voice_eval)

text \<open>
  C1 at a failing input: four classifier errors in a row, each followed by a recovery in
  which the manager's \<^verbatim>\<open>stop\<close> and \<^verbatim>\<open>start\<close> both reject. Each of the four gets its
  stop/wait/start cycle, no \<^verbatim>\<open>RECOVERY_FAILED\<close> error is emitted, and the listener ends in
  \<^verbatim>\<open>ERROR\<close> with its counter at zero, ready for a fifth cycle.
\<close>

theorem fourth_recovery_attempt:
  "recoveryCycles (snd (classifierErrors
       [(''fault'', voiceAnswers (Rejects ''busy'') (Rejects ''busy'')),
        (''fault'', voiceAnswers (Rejects ''busy'') (Rejects ''busy'')),
        (''fault'', voiceAnswers (Rejects ''busy'') (Rejects ''busy'')),
        (''fault'', voiceAnswers (Rejects ''busy'') (Rejects ''busy''))] listeningVoiceService)) = 4
   \<and> \<not> list_ex isRecoveryFailed (snd (classifierErrors
       [(''fault'', voiceAnswers (Rejects ''busy'') (Rejects ''busy'')),
        (''fault'', voiceAnswers (Rejects ''busy'') (Rejects ''busy'')),
        (''fault'', voiceAnswers (Rejects ''busy'') (Rejects ''busy'')),
        (''fault'', voiceAnswers (Rejects ''busy'') (Rejects ''busy''))] listeningVoiceService))
   \<and> currentState (fst (classifierErrors
       [(''fault'', voiceAnswers (Rejects ''busy'') (Rejects ''busy'')),
        (''fault'', voiceAnswers (Rejects ''busy'') (Rejects ''busy'')),
        (''fault'', voiceAnswers (Rejects ''busy'') (Rejects ''busy'')),
        (''fault'', voiceAnswers (Rejects ''busy'') (Rejects ''busy''))] listeningVoiceService)) = ERROR
   \<and> retryCount_v (fst (classifierErrors
       [(''fault'', voiceAnswers (Rejects ''busy'') (Rejects ''busy'')),
        (''fault'', voiceAnswers (Rejects ''busy'') (Rejects ''busy'')),
        (''fault'', voiceAnswers (Rejects ''busy'') (Rejects ''busy'')),
        (''fault'', voiceAnswers (Rejects ''busy'') (Rejects ''busy''))] listeningVoiceService)) = 0"
  unfolding listeningVoiceService_eq by (simp add: voice_eval recoveryCycles_def)

lemmas permission_eval = requestPermission_def checkPermission_def updatePermission_def
  addError_def clearError_def createError_p_def initialPermissions_def neverAskAgainSms_def
  Let_def

section \<open>Requests after never-ask-again\<close>

lemma permissionOf_setPermission [simp]:
  "permissionOf (setPermission p ty v) ty = v"
  by (cases ty) simp_all

lemma permissionOf_critical [simp]:
  "permissionOf (p\<lparr>criticalPermissionsDenied := c\<rparr>) ty = permissionOf p ty"
  by (cases ty) simp_all

lemma updatePermission_reads:
  "isMounted h \<Longrightarrow>
   permissionOf (permissions (updatePermission ty f h)) ty = f (permissionOf (permissions h) ty)
   \<and> isMounted (updatePermission ty f h)"
  by (simp add: updatePermission_def Let_def)

lemma addError_permissions [simp]:
  "permissions (addError e h) = permissions h" "isMounted (addError e h) = isMounted h"
  by (simp_all add: addError_def)

lemma clearError_permissions [simp]:
  "permissions (clearError ty h) = permissions h" "isMounted (clearError ty h) = isMounted h"
  by (simp_all add: clearError_def)

text \<open>
  C9, as stated, at the send permission with the status \<^verbatim>\<open>never_ask_again\<close>: a further
  \<^verbatim>\<open>requestPermission\<close> calls \<^verbatim>\<open>PermissionsAndroid.request\<close> again and counts the request;
  when the system answers \<^verbatim>\<open>granted\<close> (the user has changed the settings) it returns
  \<^verbatim>\<open>granted\<close>, with no \<^verbatim>\<open>check()\<close> in between. \<^verbatim>\<open>requestSMSPermission\<close> of the direct-send
  service, with \<^verbatim>\<open>canRequestPermission\<close> false, calls the system as well.
\<close>

theorem never_ask_again_counterexample:
  "status (sms (permissions neverAskAgainSms)) = NeverAskAgain
   \<and> fst (requestPermission Android (Some GRANTED) (permissions neverAskAgainSms) Sms
          neverAskAgainSms) = Granted
   \<and> snd (snd (requestPermission Android (Some GRANTED) (permissions neverAskAgainSms) Sms
          neverAskAgainSms)) = [RequestCall Sms]
   \<and> snd (snd (requestPermission Android (Some NEVER_ASK_AGAIN) (permissions neverAskAgainSms)
          Sms neverAskAgainSms)) = [RequestCall Sms]
   \<and> requestCount (sms (permissions neverAskAgainSms)) = 1
   \<and> requestCount (sms (permissions (fst (snd (requestPermission Android
          (Some NEVER_ASK_AGAIN) (permissions neverAskAgainSms) Sms neverAskAgainSms))))) = 2
   \<and> canRequestPermission (permissionStatus neverAskAgainService) = False
   \<and> snd (snd (requestSMSPermission
          (androidAnswers (Some False) (Some NEVER_ASK_AGAIN) (Inr (True, False, False)))
          neverAskAgainService))
       = [PermissionsRequest,
          Announce (lit ''SMS permission denied. You can copy messages and send them manually.'')]"
  by (simp add: permission_eval neverAskAgainService_def requestSMSPermission_def
      androidAnswers_def newAndroidSMSService_def defaultConfig_def
      announceToScreenReader_def)

text \<open>
  C9 (amended): once a permission's status is \<^verbatim>\<open>never_ask_again\<close> on the direct-send
  platform, a further \<^verbatim>\<open>request()\<close> for it is not answered from the cached status: the hook
  counts the request, calls \<^verbatim>\<open>PermissionsAndroid.request\<close> once, and returns and stores the
  status the system answers, which is \<^verbatim>\<open>never_ask_again\<close> again exactly when the system
  answers so; \<^verbatim>\<open>requestSMSPermission\<close> of the direct-send service calls the system too and
  stores its answer. A \<^verbatim>\<open>check()\<close> stores \<^verbatim>\<open>granted\<close> or \<^verbatim>\<open>denied\<close>, as the system answers.
\<close>

theorem request_after_never_ask_again:
  assumes "status (permissionOf (permissions h) ty) = NeverAskAgain" and "isMounted h"
    and "platformOS env = Android" and "requestAnswer env = Some r"
  shows "fst (requestPermission Android (Some r) (permissions h) ty h) = statusOf r
    \<and> snd (snd (requestPermission Android (Some r) (permissions h) ty h)) = [RequestCall ty]
    \<and> status (permissionOf (permissions
         (fst (snd (requestPermission Android (Some r) (permissions h) ty h)))) ty) = statusOf r
    \<and> requestCount (permissionOf (permissions
         (fst (snd (requestPermission Android (Some r) (permissions h) ty h)))) ty)
       = requestCount (permissionOf (permissions h) ty) + 1
    \<and> (statusOf r = NeverAskAgain \<longleftrightarrow> r = NEVER_ASK_AGAIN)
    \<and> fst (requestSMSPermission env s) = (r = GRANTED)
    \<and> hd (snd (snd (requestSMSPermission env s))) = PermissionsRequest
    \<and> permissionStatus (fst (snd (requestSMSPermission env s)))
       = \<lparr>hasPermission = (r = GRANTED), canRequestPermission = (r \<noteq> NEVER_ASK_AGAIN),
          isAvailable = True\<rparr>
    \<and> fst (checkPermission Android (Some b) (permissions h) ty h)
       = (if b then Granted else Denied)
    \<and> status (permissionOf (permissions
         (fst (snd (checkPermission Android (Some b) (permissions h) ty h)))) ty)
       = (if b then Granted else Denied)"
proof -
  let ?h1 = "clearError ty h"
  let ?h2 = "updatePermission ty
      (\<lambda>p. p\<lparr>requestCount := requestCount (permissionOf (permissions h) ty) + 1\<rparr>) ?h1"
  let ?h3 = "updatePermission ty (\<lambda>p. p\<lparr>status := statusOf r\<rparr>) ?h2"
  have m1: "isMounted ?h1" using assms(2) by simp
  note u2 = updatePermission_reads [OF m1, of ty
      "\<lambda>p. p\<lparr>requestCount := requestCount (permissionOf (permissions h) ty) + 1\<rparr>"]
  then have m2: "isMounted ?h2" by simp
  note u3 = updatePermission_reads [OF m2, of ty "\<lambda>p. p\<lparr>status := statusOf r\<rparr>"]
  have req: "requestPermission Android (Some r) (permissions h) ty h
      = (statusOf r,
         (if statusOf r \<noteq> Granted then
            addError (createError_p Android (permissions h) ty (statusOf r) ''PERMISSION_DENIED''
              (typeName ty @ '' permission denied'') (deniedMessage ty)
              (statusOf r \<noteq> NeverAskAgain)) ?h3
          else ?h3),
         [RequestCall ty])"
    by (simp add: requestPermission_def Let_def)
  have a: "status (permissionOf (permissions ?h3) ty) = statusOf r"
    "requestCount (permissionOf (permissions ?h3) ty)
       = requestCount (permissionOf (permissions h) ty) + 1"
    using u2 u3 by simp_all
  have c: "statusOf r = NeverAskAgain \<longleftrightarrow> r = NEVER_ASK_AGAIN"
    by (cases r) simp_all
  have svc: "fst (requestSMSPermission env s) = (r = GRANTED)"
    "hd (snd (snd (requestSMSPermission env s))) = PermissionsRequest"
    "permissionStatus (fst (snd (requestSMSPermission env s)))
       = \<lparr>hasPermission = (r = GRANTED), canRequestPermission = (r \<noteq> NEVER_ASK_AGAIN),
          isAvailable = True\<rparr>"
    using assms(3,4) by (simp_all add: requestSMSPermission_def Let_def)
  have chk: "fst (checkPermission Android (Some b) (permissions h) ty h)
       = (if b then Granted else Denied)"
    "status (permissionOf (permissions
         (fst (snd (checkPermission Android (Some b) (permissions h) ty h)))) ty)
       = (if b then Granted else Denied)"
    using updatePermission_reads [OF assms(2), of ty]
    by (simp_all add: checkPermission_def Let_def)
  have r1: "fst (requestPermission Android (Some r) (permissions h) ty h) = statusOf r"
    and r2: "snd (snd (requestPermission Android (Some r) (permissions h) ty h))
      = [RequestCall ty]"
    and r3: "permissions (fst (snd (requestPermission Android (Some r) (permissions h) ty h)))
      = permissions ?h3"
    unfolding req by simp_all
  from r1 r2 a [folded r3] c svc chk show ?thesis by blast
qed

theorem request_after_never_ask_again_witness:
  "fst (requestPermission Android (Some DENIED) (permissions neverAskAgainSms) Sms
          neverAskAgainSms) = Denied
   \<and> snd (snd (requestPermission Android (Some DENIED) (permissions neverAskAgainSms) Sms
          neverAskAgainSms)) = [RequestCall Sms]
   \<and> requestCount (permissionOf (permissions (fst (snd (requestPermission Android
          (Some DENIED) (permissions neverAskAgainSms) Sms neverAskAgainSms)))) Sms) = 2
   \<and> fst (checkPermission Android (Some True) (permissions neverAskAgainSms) Sms
          neverAskAgainSms) = Granted"
proof -
  have a: "status (permissionOf (permissions neverAskAgainSms) Sms) = NeverAskAgain"
    "isMounted neverAskAgainSms"
    "requestCount (permissionOf (permissions neverAskAgainSms) Sms) = 1"
    by (simp_all add: permission_eval)
  have e: "platformOS (androidAnswers (Some False) (Some DENIED) (Inr (True, False, False)))
             = Android"
    "requestAnswer (androidAnswers (Some False) (Some DENIED) (Inr (True, False, False)))
       = Some DENIED"
    by (simp_all add: androidAnswers_def)
  from request_after_never_ask_again [OF a(1,2) e, of _ True] a(3)
  show ?thesis by simp
qed

end
